theory Spec2Isabelle
  imports Main "HOL-Library.Product_Lexorder"
begin

section \<open>hsmcpp: the hierarchical state machine of include/hsmcpp/hsm.hpp\<close>

text \<open>
  The development embeds \<^verbatim>\<open>HierarchicalStateMachine<HsmStateEnum, HsmEventEnum>\<close> in
  its default configuration: \<^verbatim>\<open>HSM_ENABLE_SAFE_STRUCTURE\<close> is not defined (the define is
  commented out in the header), and the queue mutex plays no role in a sequential model.

  \<^item> The two enumerations are represented by their underlying integer values, so that
    \<^verbatim>\<open>static_cast<HsmEventEnum>(-1)\<close> is \<open>-1\<close> and the ordering of the keys of
    \<^verbatim>\<open>std::multimap\<close> is the ordering of the integers.
  \<^item> \<^verbatim>\<open>Variant\<close> (variant.hpp) is opaque: the type parameter \<open>'v\<close>.
  \<^item> A callback is client code. It is a function on the client's own state, the type
    parameter \<open>'w\<close>; a \<^verbatim>\<open>std::function\<close> that may be \<^verbatim>\<open>nullptr\<close> is an \<open>option\<close>.
    A callback acts on the client's state only; posting from inside a callback is outside
    the model.
  \<^item> Every invocation of a client callback is appended to a log, together with the
    value \<^verbatim>\<open>mCurrentState\<close> has at the moment of the call.
\<close>

subsection \<open>Types\<close>

type_synonym HsmStateEnum = int
type_synonym HsmEventEnum = int
type_synonym 'v VariantList_t = "'v list"

type_synonym ('v, 'w) HsmTransitionCallback_t = "'v VariantList_t \<Rightarrow> 'w \<Rightarrow> 'w"
type_synonym ('v, 'w) HsmTransitionConditionCallback_t = "'v VariantList_t \<Rightarrow> 'w \<Rightarrow> bool \<times> 'w"
type_synonym ('v, 'w) HsmStateChangedCallback_t = "'v VariantList_t \<Rightarrow> 'w \<Rightarrow> 'w"
type_synonym ('v, 'w) HsmStateEnterCallback_t = "'v VariantList_t \<Rightarrow> 'w \<Rightarrow> bool \<times> 'w"
type_synonym 'w HsmStateExitCallback_t = "'w \<Rightarrow> bool \<times> 'w"

datatype HsmEventStatus = PENDING | DONE_OK | DONE_FAILED

record ('v, 'w) StateCallbacks =
  onStateChanged :: "('v, 'w) HsmStateChangedCallback_t option"
  onEntering :: "('v, 'w) HsmStateEnterCallback_t option"
  onExiting :: "'w HsmStateExitCallback_t option"

record ('v, 'w) TransitionInfo =
  destinationState :: HsmStateEnum
  onTransition :: "('v, 'w) HsmTransitionCallback_t option"
  checkCondition :: "('v, 'w) HsmTransitionConditionCallback_t option"

text \<open>
  The three \<^verbatim>\<open>shared_ptr\<close> members of \<^verbatim>\<open>PendingEventInfo\<close> are allocated together by
  \<^verbatim>\<open>initLock\<close> and copied together; they are addresses of one cell of the heap of
  synchronisation objects below.
\<close>

record 'v PendingEventInfo =
  entryPointTransition :: bool
  type :: HsmEventEnum
  args :: "'v VariantList_t"
  cvLock :: "nat option"
  syncProcessed :: "nat option"
  transitionStatus :: "nat option"

text \<open>
  One cell per \<^verbatim>\<open>initLock\<close>: the value \<^verbatim>\<open>*transitionStatus\<close>, the use count of
  \<^verbatim>\<open>cvLock\<close> (what \<^verbatim>\<open>cvLock.unique()\<close> reads) and the number of \<^verbatim>\<open>notify_one\<close> calls made
  on \<^verbatim>\<open>*syncProcessed\<close>.
\<close>

record SyncObject =
  status :: HsmEventStatus
  useCount :: nat
  notified :: nat

text \<open>
  The calls of client callbacks, with the arguments passed and what the bool-valued ones
  returned. A state callback is identified by its state, the action and the condition of
  an edge by the edge.
\<close>

datatype ('v, 'w) Callback =
    OnExiting HsmStateEnum bool
  | OnTransition "('v, 'w) TransitionInfo" "'v VariantList_t"
  | OnEntering HsmStateEnum "'v VariantList_t" bool
  | OnStateChanged HsmStateEnum "'v VariantList_t"
  | CheckCondition "('v, 'w) TransitionInfo" "'v VariantList_t" bool

text \<open>
  What lies outside the state machine object: the heap of synchronisation objects, the
  client's state, and the log of callback invocations (each with the value of
  \<^verbatim>\<open>mCurrentState\<close> during the call).
\<close>

record ('v, 'w) Env =
  heap :: "SyncObject list"
  world :: 'w
  calls :: "(HsmStateEnum \<times> ('v, 'w) Callback) list"

text \<open>
  Modelled from the spec: the dispatcher contract of section 4.3 (IHsmEventDispatcher.hpp
  is not among the sources): \<^verbatim>\<open>start\<close>, \<^verbatim>\<open>registerEventHandler\<close>, \<^verbatim>\<open>unregisterEventHandler\<close>
  and \<^verbatim>\<open>emitEvent\<close>, the last counted in \<open>emitted\<close>.
\<close>

record Dispatcher =
  startOk :: bool
  handlers :: "int list"
  nextHandlerID :: int
  emitted :: nat

type_synonym ('k, 'a) multimap = "('k \<times> 'a) list"

record ('v, 'w) HSM =
  mCurrentState :: HsmStateEnum
  mTransitionsByEvent :: "(HsmStateEnum \<times> HsmEventEnum, ('v, 'w) TransitionInfo) multimap"
  mRegisteredStates :: "HsmStateEnum \<rightharpoonup> ('v, 'w) StateCallbacks"
  mSubstates :: "(HsmStateEnum, HsmStateEnum) multimap"
  mSubstateEntryPoint :: "HsmStateEnum \<rightharpoonup> HsmStateEnum"
  mPendingEvents :: "'v PendingEventInfo list"
  mDispatcher :: "Dispatcher option"
  mDispatcherHandlerId :: int
  mStopDispatching :: bool

datatype Error = NullDispatcher

subsection \<open>std::multimap\<close>

text \<open>
  A \<^verbatim>\<open>std::multimap\<close> is the list of its entries in iteration order: sorted by key,
  entries of equal keys in insertion order (\<^verbatim>\<open>emplace\<close> inserts at the upper bound of the
  range of equal keys).
\<close>

definition emplace :: "'k::linorder \<Rightarrow> 'a \<Rightarrow> ('k, 'a) multimap \<Rightarrow> ('k, 'a) multimap" where
  "emplace k v m = takeWhile (\<lambda>e. fst e \<le> k) m @ (k, v) # dropWhile (\<lambda>e. fst e \<le> k) m"

definition equal_range :: "'k \<Rightarrow> ('k, 'a) multimap \<Rightarrow> 'a list" where
  "equal_range k m = map snd (filter (\<lambda>e. fst e = k) m)"

subsection \<open>Construction and registration\<close>

definition INVALID_HSM_DISPATCHER_HANDLER_ID :: int where
  "INVALID_HSM_DISPATCHER_HANDLER_ID = 0"

definition HierarchicalStateMachine :: "HsmStateEnum \<Rightarrow> ('v, 'w) HSM" where
  "HierarchicalStateMachine initialState =
     \<lparr>mCurrentState = initialState, mTransitionsByEvent = [], mRegisteredStates = Map.empty,
      mSubstates = [], mSubstateEntryPoint = Map.empty, mPendingEvents = [],
      mDispatcher = None, mDispatcherHandlerId = INVALID_HSM_DISPATCHER_HANDLER_ID,
      mStopDispatching = False\<rparr>"

definition registerState ::
  "HsmStateEnum \<Rightarrow> ('v, 'w) HsmStateChangedCallback_t option \<Rightarrow>
   ('v, 'w) HsmStateEnterCallback_t option \<Rightarrow> 'w HsmStateExitCallback_t option \<Rightarrow>
   ('v, 'w) HSM \<Rightarrow> ('v, 'w) HSM" where
  "registerState state onStateChanged' onEntering' onExiting' h =
     (if onStateChanged' \<noteq> None \<or> onEntering' \<noteq> None \<or> onExiting' \<noteq> None
      then h\<lparr>mRegisteredStates := (mRegisteredStates h)(state \<mapsto>
             \<lparr>onStateChanged = onStateChanged', onEntering = onEntering',
              onExiting = onExiting'\<rparr>)\<rparr>
      else h)"

definition registerSubstate ::
  "HsmStateEnum \<Rightarrow> HsmStateEnum \<Rightarrow> bool \<Rightarrow> ('v, 'w) HSM \<Rightarrow> bool \<times> ('v, 'w) HSM" where
  "registerSubstate parent substate isEntryPoint h =
     (let registrationAllowed = (parent \<noteq> substate) in
      if registrationAllowed
      then (registrationAllowed,
            (if isEntryPoint
             then h\<lparr>mSubstateEntryPoint := (mSubstateEntryPoint h)(parent \<mapsto> substate)\<rparr>
             else h)\<lparr>mSubstates := emplace parent substate (mSubstates h)\<rparr>)
      else (registrationAllowed, h))"

definition registerTransition ::
  "HsmStateEnum \<Rightarrow> HsmStateEnum \<Rightarrow> HsmEventEnum \<Rightarrow> ('v, 'w) HsmTransitionCallback_t option \<Rightarrow>
   ('v, 'w) HsmTransitionConditionCallback_t option \<Rightarrow> ('v, 'w) HSM \<Rightarrow> ('v, 'w) HSM" where
  "registerTransition from to onEvent transitionCallback conditionCallback h =
     h\<lparr>mTransitionsByEvent :=
        emplace (from, onEvent)
          \<lparr>destinationState = to, onTransition = transitionCallback,
           checkCondition = conditionCallback\<rparr>
          (mTransitionsByEvent h)\<rparr>"

definition getCurrentState :: "('v, 'w) HSM \<Rightarrow> HsmStateEnum" where
  "getCurrentState h = mCurrentState h"

subsection \<open>Calling the client\<close>

definition logCall :: "('v, 'w) HSM \<Rightarrow> ('v, 'w) Callback \<Rightarrow> ('v, 'w) Env \<Rightarrow> ('v, 'w) Env" where
  "logCall h cb x = x\<lparr>calls := calls x @ [(mCurrentState h, cb)]\<rparr>"

definition onStateExiting ::
  "('v, 'w) HSM \<Rightarrow> HsmStateEnum \<Rightarrow> ('v, 'w) Env \<Rightarrow> bool \<times> ('v, 'w) Env" where
  "onStateExiting h state x =
     (case mRegisteredStates h state of
        None \<Rightarrow> (True, x)
      | Some cb \<Rightarrow>
          (case onExiting cb of
             None \<Rightarrow> (True, x)
           | Some f \<Rightarrow>
               (let (res, w) = f (world x)
                in (res, logCall h (OnExiting state res) (x\<lparr>world := w\<rparr>)))))"

definition onStateEntering ::
  "('v, 'w) HSM \<Rightarrow> HsmStateEnum \<Rightarrow> 'v VariantList_t \<Rightarrow> ('v, 'w) Env \<Rightarrow> bool \<times> ('v, 'w) Env" where
  "onStateEntering h state as x =
     (case mRegisteredStates h state of
        None \<Rightarrow> (True, x)
      | Some cb \<Rightarrow>
          (case onEntering cb of
             None \<Rightarrow> (True, x)
           | Some f \<Rightarrow>
               (let (res, w) = f as (world x)
                in (res, logCall h (OnEntering state as res) (x\<lparr>world := w\<rparr>)))))"

text \<open>The method \<^verbatim>\<open>onStateChanged(state, args)\<close>; the record field has the plain name.\<close>

definition onStateChanged_call ::
  "('v, 'w) HSM \<Rightarrow> HsmStateEnum \<Rightarrow> 'v VariantList_t \<Rightarrow> ('v, 'w) Env \<Rightarrow> ('v, 'w) Env" where
  "onStateChanged_call h state as x =
     (case mRegisteredStates h state of
        None \<Rightarrow> x
      | Some cb \<Rightarrow>
          (case onStateChanged cb of
             None \<Rightarrow> x
           | Some f \<Rightarrow> logCall h (OnStateChanged state as) (x\<lparr>world := f as (world x)\<rparr>)))"

text \<open>The call \<^verbatim>\<open>transitionInfo.onTransition(event.args)\<close> under its null test.\<close>

definition onTransition_call ::
  "('v, 'w) HSM \<Rightarrow> ('v, 'w) TransitionInfo \<Rightarrow> 'v VariantList_t \<Rightarrow> ('v, 'w) Env \<Rightarrow>
   ('v, 'w) Env" where
  "onTransition_call h transitionInfo as x =
     (case onTransition transitionInfo of
        None \<Rightarrow> x
      | Some f \<Rightarrow>
          logCall h (OnTransition transitionInfo as)
            (x\<lparr>world := f as (world x)\<rparr>))"

subsection \<open>Topology lookups\<close>

definition getParentState :: "('v, 'w) HSM \<Rightarrow> HsmStateEnum \<Rightarrow> HsmStateEnum option" where
  "getParentState h child =
     map_option fst (find (\<lambda>itemIt. child = snd itemIt) (mSubstates h))"

definition getEntryPoint :: "('v, 'w) HSM \<Rightarrow> HsmStateEnum \<Rightarrow> HsmStateEnum option" where
  "getEntryPoint h state = mSubstateEntryPoint h state"

subsection \<open>Resolution of a transition\<close>

text \<open>
  The \<^verbatim>\<open>for\<close> loop of \<^verbatim>\<open>findTransitionTarget\<close> over the range of equal keys: the first
  entry without a condition, or whose condition returns true.
\<close>

fun checkConditions ::
  "('v, 'w) HSM \<Rightarrow> ('v, 'w) TransitionInfo list \<Rightarrow> 'v VariantList_t \<Rightarrow> ('v, 'w) Env \<Rightarrow>
   ('v, 'w) TransitionInfo option \<times> ('v, 'w) Env" where
  "checkConditions h [] transitionArgs x = (None, x)"
| "checkConditions h (it # rest) transitionArgs x =
     (case checkCondition it of
        None \<Rightarrow> (Some it, x)
      | Some g \<Rightarrow>
          (let (res, w) = g transitionArgs (world x);
               x' = logCall h (CheckCondition it transitionArgs res)
                      (x\<lparr>world := w\<rparr>)
           in if res then (Some it, x') else checkConditions h rest transitionArgs x'))"

text \<open>
  The \<^verbatim>\<open>do ... while (continueSearch)\<close> loop. It has no bound: on a cyclic substate
  relation without an edge for the event it does not return, which is the value \<open>None\<close>.
  A returned \<open>Some (None, x)\<close> is \<^verbatim>\<open>wasFound == false\<close>.
\<close>

partial_function (option) findTransitionTarget ::
  "('v, 'w) HSM \<Rightarrow> HsmStateEnum \<Rightarrow> HsmEventEnum \<Rightarrow> 'v VariantList_t \<Rightarrow> ('v, 'w) Env \<Rightarrow>
   (('v, 'w) TransitionInfo option \<times> ('v, 'w) Env) option" where
  "findTransitionTarget h curState event transitionArgs x =
     (if equal_range (curState, event) (mTransitionsByEvent h) = []
      then (case getParentState h curState of
              Some parentState \<Rightarrow> findTransitionTarget h parentState event transitionArgs x
            | None \<Rightarrow> Some (None, x))
      else Some (checkConditions h (equal_range (curState, event) (mTransitionsByEvent h))
                   transitionArgs x))"


subsection \<open>PendingEventInfo\<close>

text \<open>
  \<^verbatim>\<open>shared_ptr\<close> bookkeeping on the heap: only the use count of \<^verbatim>\<open>cvLock\<close> is observed by
  the code (\<^verbatim>\<open>cvLock.unique()\<close>), so only that one is kept.
\<close>

definition heapUpdate :: "nat \<Rightarrow> (SyncObject \<Rightarrow> SyncObject) \<Rightarrow> SyncObject list \<Rightarrow> SyncObject list" where
  "heapUpdate a f hp = (if a < length hp then hp[a := f (hp ! a)] else hp)"

definition shared_ptr_copy :: "nat option \<Rightarrow> SyncObject list \<Rightarrow> SyncObject list" where
  "shared_ptr_copy p hp =
     (case p of None \<Rightarrow> hp | Some a \<Rightarrow> heapUpdate a (\<lambda>s. s\<lparr>useCount := useCount s + 1\<rparr>) hp)"

definition shared_ptr_reset :: "nat option \<Rightarrow> SyncObject list \<Rightarrow> SyncObject list" where
  "shared_ptr_reset p hp =
     (case p of None \<Rightarrow> hp | Some a \<Rightarrow> heapUpdate a (\<lambda>s. s\<lparr>useCount := useCount s - 1\<rparr>) hp)"

definition unique :: "nat option \<Rightarrow> SyncObject list \<Rightarrow> bool" where
  "unique p hp = (case p of None \<Rightarrow> False | Some a \<Rightarrow> a < length hp \<and> useCount (hp ! a) = 1)"

text \<open>A default-constructed \<^verbatim>\<open>PendingEventInfo\<close>.\<close>

definition PendingEventInfo_default :: "'v PendingEventInfo" where
  "PendingEventInfo_default =
     \<lparr>entryPointTransition = False, type = - 1, args = [], cvLock = None,
      syncProcessed = None, transitionStatus = None\<rparr>"

definition initLock ::
  "'v PendingEventInfo \<Rightarrow> SyncObject list \<Rightarrow> 'v PendingEventInfo \<times> SyncObject list" where
  "initLock ev hp =
     (if cvLock ev = None
      then (ev\<lparr>cvLock := Some (length hp), syncProcessed := Some (length hp),
               transitionStatus := Some (length hp)\<rparr>,
            hp @ [\<lparr>status = PENDING, useCount = 1, notified = 0\<rparr>])
      else (ev, hp))"

definition isSync :: "'v PendingEventInfo \<Rightarrow> bool" where
  "isSync ev = (cvLock ev \<noteq> None)"

text \<open>
  \<^verbatim>\<open>unlock\<close> writes \<^verbatim>\<open>*transitionStatus\<close> and notifies unless the status is pending. The
  three pointers are set together, so under \<^verbatim>\<open>isSync\<close> the other two are not null.
\<close>

definition unlock :: "'v PendingEventInfo \<Rightarrow> HsmEventStatus \<Rightarrow> SyncObject list \<Rightarrow> SyncObject list" where
  "unlock ev st hp =
     (if isSync ev
      then (let hp1 = (case transitionStatus ev of
                         None \<Rightarrow> hp
                       | Some a \<Rightarrow> heapUpdate a (\<lambda>s. s\<lparr>status := st\<rparr>) hp)
            in if st \<noteq> PENDING
               then (case syncProcessed ev of
                       None \<Rightarrow> hp1
                     | Some c \<Rightarrow> heapUpdate c (\<lambda>s. s\<lparr>notified := notified s + 1\<rparr>) hp1)
               else hp1)
      else hp)"

definition releaseLock ::
  "'v PendingEventInfo \<Rightarrow> SyncObject list \<Rightarrow> 'v PendingEventInfo \<times> SyncObject list" where
  "releaseLock ev hp =
     (if isSync ev
      then (ev\<lparr>cvLock := None, syncProcessed := None\<rparr>,
            shared_ptr_reset (cvLock ev) (unlock ev DONE_FAILED hp))
      else (ev, hp))"

text \<open>
  The end of an object's life: the body of \<^verbatim>\<open>~PendingEventInfo\<close>, then the destruction of
  the member \<^verbatim>\<open>cvLock\<close>.
\<close>

definition destroy :: "'v PendingEventInfo \<Rightarrow> SyncObject list \<Rightarrow> SyncObject list" where
  "destroy ev hp =
     (let (ev1, hp1) =
            (if unique (cvLock ev) hp
             then (ev\<lparr>cvLock := None, syncProcessed := None\<rparr>,
                   shared_ptr_reset (cvLock ev) (unlock ev DONE_FAILED hp))
             else (ev, hp))
      in shared_ptr_reset (cvLock ev1) hp1)"

subsection \<open>The queue\<close>

text \<open>The loop of \<^verbatim>\<open>clearPendingEvents\<close>, which changes the entries in place.\<close>

fun releaseLocks ::
  "'v PendingEventInfo list \<Rightarrow> SyncObject list \<Rightarrow> 'v PendingEventInfo list \<times> SyncObject list" where
  "releaseLocks [] hp = ([], hp)"
| "releaseLocks (it # rest) hp =
     (let (it', hp1) = (if \<not> entryPointTransition it then releaseLock it hp else (it, hp));
          (rest', hp2) = releaseLocks rest hp1
      in (it' # rest', hp2))"

text \<open>\<^verbatim>\<open>std::list::clear\<close>: every entry is destroyed.\<close>

fun list_clear :: "'v PendingEventInfo list \<Rightarrow> SyncObject list \<Rightarrow> SyncObject list" where
  "list_clear [] hp = hp"
| "list_clear (it # rest) hp = list_clear rest (destroy it hp)"

definition clearPendingEvents ::
  "('v, 'w) HSM \<Rightarrow> ('v, 'w) Env \<Rightarrow> ('v, 'w) HSM \<times> ('v, 'w) Env" where
  "clearPendingEvents h x =
     (let (evs, hp) = releaseLocks (mPendingEvents h) (heap x)
      in (h\<lparr>mPendingEvents := []\<rparr>, x\<lparr>heap := list_clear evs hp\<rparr>))"

subsection \<open>The transition\<close>

text \<open>
  The first block of \<^verbatim>\<open>doTransition\<close>, which sets \<^verbatim>\<open>correctTransition\<close> and
  \<^verbatim>\<open>transitionInfo\<close>: the entry point of the current state for an entry point event, the
  search for a target otherwise. \<open>Some (None, x)\<close> is \<^verbatim>\<open>correctTransition == false\<close>; \<open>None\<close>
  is returned only where \<open>findTransitionTarget\<close> does not return.
\<close>

definition resolveTransition ::
  "('v, 'w) HSM \<Rightarrow> ('v, 'w) Env \<Rightarrow> 'v PendingEventInfo \<Rightarrow>
   (('v, 'w) TransitionInfo option \<times> ('v, 'w) Env) option" where
  "resolveTransition h x event =
     (if entryPointTransition event
      then (case getEntryPoint h (mCurrentState h) of
              Some entryPoint \<Rightarrow>
                Some (Some \<lparr>destinationState = entryPoint, onTransition = None,
                            checkCondition = None\<rparr>, x)
            | None \<Rightarrow> Some (None, x))
      else findTransitionTarget h (mCurrentState h) (type event) (args event) x)"

text \<open>
  The rest of \<^verbatim>\<open>doTransition\<close>. The entry point event is built in a local object, copied
  to the front of the queue, and the local object is destroyed at the end of its block.
\<close>

definition doTransition ::
  "('v, 'w) HSM \<Rightarrow> ('v, 'w) Env \<Rightarrow> 'v PendingEventInfo \<Rightarrow>
   (HsmEventStatus \<times> ('v, 'w) HSM \<times> ('v, 'w) Env) option" where
  "doTransition h x event =
     (case resolveTransition h x event of
        None \<Rightarrow> None
      | Some (None, x0) \<Rightarrow> Some (DONE_FAILED, h, x0)
      | Some (Some transitionInfo, x0) \<Rightarrow>
          Some
           (if mCurrentState h \<noteq> destinationState transitionInfo
            then (let (exited, x1) = onStateExiting h (mCurrentState h) x0
                  in if exited
                     then (let x2 = onTransition_call h transitionInfo (args event) x1;
                               (entered, x3) =
                                  onStateEntering h (destinationState transitionInfo)
                                    (args event) x2
                           in if entered
                              then (let h1 = h\<lparr>mCurrentState := destinationState transitionInfo\<rparr>;
                                        x4 = onStateChanged_call h1 (destinationState transitionInfo)
                                               (args event) x3
                                    in case getEntryPoint h1 (mCurrentState h1) of
                                         Some entryPoint \<Rightarrow>
                                           (let entryPointTransitionEvent =
                                                  PendingEventInfo_default
                                                    \<lparr>entryPointTransition := True,
                                                     args := args event,
                                                     cvLock := cvLock event,
                                                     syncProcessed := syncProcessed event,
                                                     transitionStatus := transitionStatus event\<rparr>;
                                                hp1 = shared_ptr_copy (cvLock event) (heap x4);
                                                hp2 = shared_ptr_copy
                                                        (cvLock entryPointTransitionEvent) hp1;
                                                h2 = h1\<lparr>mPendingEvents :=
                                                          entryPointTransitionEvent
                                                            # mPendingEvents h1\<rparr>
                                            in (PENDING, h2,
                                                x4\<lparr>heap := destroy entryPointTransitionEvent hp2\<rparr>))
                                       | None \<Rightarrow> (DONE_OK, h1, x4))
                              else (let (entered', x4) =
                                          onStateEntering h (mCurrentState h) [] x3;
                                        x5 = onStateChanged_call h (mCurrentState h) [] x4
                                    in (DONE_FAILED, h, x5)))
                     else (DONE_FAILED, h, x1))
            else (case onTransition transitionInfo of
                    Some f \<Rightarrow> (DONE_OK, h, onTransition_call h transitionInfo (args event) x0)
                  | None \<Rightarrow> (DONE_FAILED, h, x0))))"

subsection \<open>Dispatcher, lifecycle and posting\<close>

text \<open>
  Modelled from the spec: \<^verbatim>\<open>registerEventHandler\<close> returns a fresh handler id and
  \<^verbatim>\<open>emitEvent\<close> requests one more turn (section 4.3; the Qt dispatcher under src/ registers
  and unregisters the same way).
\<close>

definition registerEventHandler :: "Dispatcher \<Rightarrow> int \<times> Dispatcher" where
  "registerEventHandler d =
     (nextHandlerID d,
      d\<lparr>handlers := handlers d @ [nextHandlerID d], nextHandlerID := nextHandlerID d + 1\<rparr>)"

definition unregisterEventHandler :: "int \<Rightarrow> Dispatcher \<Rightarrow> Dispatcher" where
  "unregisterEventHandler handlerId d = d\<lparr>handlers := removeAll handlerId (handlers d)\<rparr>"

definition emitEvent :: "Dispatcher \<Rightarrow> Dispatcher" where
  "emitEvent d = d\<lparr>emitted := emitted d + 1\<rparr>"

definition initialize :: "Dispatcher option \<Rightarrow> ('v, 'w) HSM \<Rightarrow> bool \<times> ('v, 'w) HSM" where
  "initialize dispatcher h =
     (case dispatcher of
        None \<Rightarrow> (False, h)
      | Some d \<Rightarrow>
          (if startOk d
           then (let (handlerId, d') = registerEventHandler d
                 in (INVALID_HSM_DISPATCHER_HANDLER_ID \<noteq> handlerId,
                     h\<lparr>mDispatcher := Some d', mDispatcherHandlerId := handlerId\<rparr>))
           else (False, h)))"

text \<open>
  \<^verbatim>\<open>release\<close>: after it \<^verbatim>\<open>mDispatcher\<close> is null (the unregistration acts on the dispatcher
  object, which the machine no longer refers to).
\<close>

definition release :: "('v, 'w) HSM \<Rightarrow> ('v, 'w) HSM" where
  "release h =
     (let h1 = h\<lparr>mStopDispatching := True\<rparr>
      in case mDispatcher h1 of
           Some d \<Rightarrow> h1\<lparr>mDispatcher := None,
                       mDispatcherHandlerId := INVALID_HSM_DISPATCHER_HANDLER_ID\<rparr>
         | None \<Rightarrow> h1)"

text \<open>
  \<^verbatim>\<open>dispatchEvents\<close>. The local \<^verbatim>\<open>pendingEvent\<close> is a copy of the head of the queue;
  \<^verbatim>\<open>pop_front\<close> destroys the head, and the copy is destroyed at the end of its block.
  \<^verbatim>\<open>mDispatcher->emitEvent()\<close> on a null \<^verbatim>\<open>mDispatcher\<close> is the error \<open>NullDispatcher\<close>,
  returned with the state reached at that point.
\<close>

definition dispatchEvents ::
  "('v, 'w) HSM \<Rightarrow> ('v, 'w) Env \<Rightarrow> ((Error + unit) \<times> ('v, 'w) HSM \<times> ('v, 'w) Env) option" where
  "dispatchEvents h x =
     (if \<not> mStopDispatching h
      then (case (case mPendingEvents h of
                    [] \<Rightarrow> Some (h, x)
                  | front # rest \<Rightarrow>
                      (let pendingEvent = front;
                           hp1 = shared_ptr_copy (cvLock front) (heap x);
                           hp2 = destroy front hp1;
                           h1 = h\<lparr>mPendingEvents := rest\<rparr>
                       in case doTransition h1 (x\<lparr>heap := hp2\<rparr>) pendingEvent of
                            None \<Rightarrow> None
                          | Some (transitiontStatus, h2, x2) \<Rightarrow>
                              Some (h2, x2\<lparr>heap := destroy pendingEvent
                                             (unlock pendingEvent transitiontStatus (heap x2))\<rparr>))) of
              None \<Rightarrow> None
            | Some (h3, x3) \<Rightarrow>
                (if \<not> mStopDispatching h3 \<and> mPendingEvents h3 \<noteq> []
                 then (case mDispatcher h3 of
                         None \<Rightarrow> Some (Inl NullDispatcher, h3, x3)
                       | Some d \<Rightarrow> Some (Inr (), h3\<lparr>mDispatcher := Some (emitEvent d)\<rparr>, x3))
                 else Some (Inr (), h3, x3)))
      else Some (Inr (), h, x))"

text \<open>
  \<^verbatim>\<open>PendingEventInfo::wait\<close>. While the caller waits, other threads run; what they do to
  the machine and its environment is the parameter \<open>during\<close>. The wait ends when the status
  is no longer pending, or by the timeout when \<^verbatim>\<open>timeoutMs > 0\<close>; a wait without timeout on
  a status that stays pending does not return (\<open>None\<close>).
\<close>

definition wait ::
  "'v PendingEventInfo \<Rightarrow> int \<Rightarrow> (('v, 'w) HSM \<times> ('v, 'w) Env \<Rightarrow> ('v, 'w) HSM \<times> ('v, 'w) Env) \<Rightarrow>
   ('v, 'w) HSM \<times> ('v, 'w) Env \<Rightarrow> (('v, 'w) HSM \<times> ('v, 'w) Env) option" where
  "wait ev timeoutMs during s =
     (if isSync ev
      then (let (h', x') = during s
            in if timeoutMs > 0 then Some (h', x')
               else (case transitionStatus ev of
                       None \<Rightarrow> Some (h', x')
                     | Some a \<Rightarrow>
                         (if a < length (heap x') \<and> status (heap x' ! a) = PENDING
                          then None else Some (h', x'))))
      else Some s)"

text \<open>
  \<^verbatim>\<open>transitionEx\<close>. The arguments arrive as the list \<^verbatim>\<open>makeVariantList\<close> builds. The local
  \<^verbatim>\<open>eventInfo\<close> is copied into the queue and destroyed when the function returns.
\<close>

definition transitionEx ::
  "HsmEventEnum \<Rightarrow> bool \<Rightarrow> bool \<Rightarrow> int \<Rightarrow> 'v VariantList_t \<Rightarrow>
   (('v, 'w) HSM \<times> ('v, 'w) Env \<Rightarrow> ('v, 'w) HSM \<times> ('v, 'w) Env) \<Rightarrow>
   ('v, 'w) HSM \<Rightarrow> ('v, 'w) Env \<Rightarrow> ((Error + bool) \<times> ('v, 'w) HSM \<times> ('v, 'w) Env) option" where
  "transitionEx event clearQueue sync timeoutMs as during h x =
     (let eventInfo0 = PendingEventInfo_default\<lparr>type := event, args := as\<rparr>;
          (eventInfo, hp1) = (if sync then initLock eventInfo0 (heap x)
                              else (eventInfo0, heap x));
          (h1, x1) = (if clearQueue then clearPendingEvents h (x\<lparr>heap := hp1\<rparr>)
                      else (h, x\<lparr>heap := hp1\<rparr>));
          h2 = h1\<lparr>mPendingEvents := mPendingEvents h1 @ [eventInfo]\<rparr>;
          x2 = x1\<lparr>heap := shared_ptr_copy (cvLock eventInfo) (heap x1)\<rparr>
      in case mDispatcher h2 of
           None \<Rightarrow> Some (Inl NullDispatcher, h2, x2)
         | Some d \<Rightarrow>
             (let h3 = h2\<lparr>mDispatcher := Some (emitEvent d)\<rparr>
              in if sync
                 then (case wait eventInfo timeoutMs during (h3, x2) of
                         None \<Rightarrow> None
                       | Some (h4, x4) \<Rightarrow>
                           Some (Inr (case transitionStatus eventInfo of
                                        None \<Rightarrow> False
                                      | Some a \<Rightarrow> a < length (heap x4) \<and>
                                                  status (heap x4 ! a) = DONE_OK),
                                 h4, x4\<lparr>heap := destroy eventInfo (heap x4)\<rparr>))
                 else Some (Inr True, h3, x2\<lparr>heap := destroy eventInfo (heap x2)\<rparr>)))"

definition transition ::
  "HsmEventEnum \<Rightarrow> 'v VariantList_t \<Rightarrow> ('v, 'w) HSM \<Rightarrow> ('v, 'w) Env \<Rightarrow>
   ((Error + bool) \<times> ('v, 'w) HSM \<times> ('v, 'w) Env) option" where
  "transition event as h x = transitionEx event False False 0 as id h x"

definition transitionSync ::
  "HsmEventEnum \<Rightarrow> int \<Rightarrow> 'v VariantList_t \<Rightarrow>
   (('v, 'w) HSM \<times> ('v, 'w) Env \<Rightarrow> ('v, 'w) HSM \<times> ('v, 'w) Env) \<Rightarrow>
   ('v, 'w) HSM \<Rightarrow> ('v, 'w) Env \<Rightarrow> ((Error + bool) \<times> ('v, 'w) HSM \<times> ('v, 'w) Env) option" where
  "transitionSync event timeoutMs as during h x =
     transitionEx event False True timeoutMs as during h x"

definition transitionWithQueueClear ::
  "HsmEventEnum \<Rightarrow> 'v VariantList_t \<Rightarrow> ('v, 'w) HSM \<Rightarrow> ('v, 'w) Env \<Rightarrow>
   ((Error + bool) \<times> ('v, 'w) HSM \<times> ('v, 'w) Env) option" where
  "transitionWithQueueClear event as h x = transitionEx event True False 0 as id h x"

section \<open>Notions the statements use\<close>

text \<open>
  The walk of \<^verbatim>\<open>findTransitionTarget\<close> seen from outside: \<open>bubbles h e s path a\<close> says that
  \<open>path\<close> is the chain of parents leading from \<open>s\<close> up to \<open>a\<close> (\<open>a\<close> last, \<open>s\<close> itself
  left out), and that no state of the chain below \<open>a\<close> has an edge for the event \<open>e\<close>.
  With an empty path, \<open>a\<close> is \<open>s\<close>.
\<close>

fun bubbles ::
  "('v, 'w) HSM \<Rightarrow> HsmEventEnum \<Rightarrow> HsmStateEnum \<Rightarrow> HsmStateEnum list \<Rightarrow> HsmStateEnum \<Rightarrow> bool" where
  "bubbles h e s [] a = (s = a)"
| "bubbles h e s (p # ps) a =
     (equal_range (s, e) (mTransitionsByEvent h) = [] \<and> getParentState h s = Some p \<and>
      bubbles h e p ps a)"

text \<open>
  A guard as a predicate on the arguments of the event: the edge has a condition that
  returns false on them (\<open>refuses\<close>), or it has none or one that returns true (\<open>accepts\<close>),
  whatever the client's state.
\<close>

definition refuses :: "('v, 'w) TransitionInfo \<Rightarrow> 'v VariantList_t \<Rightarrow> bool" where
  "refuses t as = (\<exists>g. checkCondition t = Some g \<and> (\<forall>w. \<not> fst (g as w)))"

definition accepts :: "('v, 'w) TransitionInfo \<Rightarrow> 'v VariantList_t \<Rightarrow> bool" where
  "accepts t as = (case checkCondition t of None \<Rightarrow> True | Some g \<Rightarrow> \<forall>w. fst (g as w))"

text \<open>The log entries of conditions that were called, in order, and returned false.\<close>

definition conditionCalls ::
  "('v, 'w) HSM \<Rightarrow> ('v, 'w) TransitionInfo list \<Rightarrow> 'v VariantList_t \<Rightarrow>
   (HsmStateEnum \<times> ('v, 'w) Callback) list" where
  "conditionCalls h ts as = map (\<lambda>t. (mCurrentState h, CheckCondition t as False)) ts"

text \<open>The log entry of a callback that may be null: nothing is called when it is.\<close>

definition fired :: "'a option \<Rightarrow> 'b \<Rightarrow> 'b list" where
  "fired cb c = (case cb of None \<Rightarrow> [] | Some f \<Rightarrow> [c])"

text \<open>The callbacks a state has in \<^verbatim>\<open>mRegisteredStates\<close>; none when it has no entry.\<close>

definition exitCallback :: "('v, 'w) HSM \<Rightarrow> HsmStateEnum \<Rightarrow> 'w HsmStateExitCallback_t option" where
  "exitCallback h s = (case mRegisteredStates h s of None \<Rightarrow> None | Some cb \<Rightarrow> onExiting cb)"

definition enterCallback ::
  "('v, 'w) HSM \<Rightarrow> HsmStateEnum \<Rightarrow> ('v, 'w) HsmStateEnterCallback_t option" where
  "enterCallback h s = (case mRegisteredStates h s of None \<Rightarrow> None | Some cb \<Rightarrow> onEntering cb)"

definition changedCallback ::
  "('v, 'w) HSM \<Rightarrow> HsmStateEnum \<Rightarrow> ('v, 'w) HsmStateChangedCallback_t option" where
  "changedCallback h s =
     (case mRegisteredStates h s of None \<Rightarrow> None | Some cb \<Rightarrow> onStateChanged cb)"

text \<open>
  A client's calls of \<^verbatim>\<open>registerTransition\<close> in sequence, each call given by its five
  arguments, and the edges these calls register for one key, in the order of the calls.
\<close>

type_synonym ('v, 'w) Registration =
  "HsmStateEnum \<times> HsmStateEnum \<times> HsmEventEnum \<times> ('v, 'w) HsmTransitionCallback_t option \<times>
   ('v, 'w) HsmTransitionConditionCallback_t option"

fun registerTransitions :: "('v, 'w) Registration list \<Rightarrow> ('v, 'w) HSM \<Rightarrow> ('v, 'w) HSM" where
  "registerTransitions [] h = h"
| "registerTransitions ((from, to, onEvent, transitionCallback, conditionCallback) # rest) h =
     registerTransitions rest
       (registerTransition from to onEvent transitionCallback conditionCallback h)"

fun registeredFor ::
  "HsmStateEnum \<Rightarrow> HsmEventEnum \<Rightarrow> ('v, 'w) Registration list \<Rightarrow> ('v, 'w) TransitionInfo list" where
  "registeredFor s e [] = []"
| "registeredFor s e ((from, to, onEvent, transitionCallback, conditionCallback) # rest) =
     (if from = s \<and> onEvent = e
      then \<lparr>destinationState = to, onTransition = transitionCallback,
            checkCondition = conditionCallback\<rparr> # registeredFor s e rest
      else registeredFor s e rest)"

text \<open>
  A client's calls of \<^verbatim>\<open>registerState\<close> for one state in sequence, each call given by the
  three callbacks it supplies.
\<close>

type_synonym ('v, 'w) StateRegistration =
  "('v, 'w) HsmStateChangedCallback_t option \<times> ('v, 'w) HsmStateEnterCallback_t option \<times>
   'w HsmStateExitCallback_t option"

fun registerStates ::
  "HsmStateEnum \<Rightarrow> ('v, 'w) StateRegistration list \<Rightarrow> ('v, 'w) HSM \<Rightarrow> ('v, 'w) HSM" where
  "registerStates state [] h = h"
| "registerStates state ((onStateChanged', onEntering', onExiting') # rest) h =
     registerStates state rest (registerState state onStateChanged' onEntering' onExiting' h)"

fun suppliesCallback :: "('v, 'w) StateRegistration \<Rightarrow> bool" where
  "suppliesCallback (onStateChanged', onEntering', onExiting') =
     (onStateChanged' \<noteq> None \<or> onEntering' \<noteq> None \<or> onExiting' \<noteq> None)"

definition callbacksFor :: "('v, 'w) HSM \<Rightarrow> HsmStateEnum \<Rightarrow> ('v, 'w) StateRegistration" where
  "callbacksFor h s = (changedCallback h s, enterCallback h s, exitCallback h s)"

section \<open>A machine to run\<close>

text \<open>
  The states: 0 contains 1, and 1 contains 2, each the entry point of its parent; 3 and 4
  are flat. The machine is in state 2. States 2 and 3 have the three callbacks, all
  accepting; state 4 refuses to be entered. The client's state is a number, and every
  callback adds its own amount to it. The guard accepts the argument list \<open>[1]\<close> only.
\<close>

definition demo_guard :: "(int, nat) HsmTransitionConditionCallback_t" where
  "demo_guard as w = (as = [1], w)"

definition demo_exit :: "nat HsmStateExitCallback_t" where
  "demo_exit w = (True, w + 1)"

definition demo_enter :: "(int, nat) HsmStateEnterCallback_t" where
  "demo_enter as w = (True, w + 10)"

definition demo_refuse_enter :: "(int, nat) HsmStateEnterCallback_t" where
  "demo_refuse_enter as w = (False, w + 20)"

definition demo_changed :: "(int, nat) HsmStateChangedCallback_t" where
  "demo_changed as w = w + 100"

definition demo_action :: "(int, nat) HsmTransitionCallback_t" where
  "demo_action as w = w + 1000"

definition demo_topology :: "(int, nat) HSM" where
  "demo_topology =
     registerState 4 None (Some demo_refuse_enter) None
       (registerState 3 (Some demo_changed) (Some demo_enter) (Some demo_exit)
          (registerState 2 (Some demo_changed) (Some demo_enter) (Some demo_exit)
             (snd (registerSubstate 1 2 True
                (snd (registerSubstate 0 1 True (HierarchicalStateMachine 2)))))))"

text \<open>
  The edges, in the order of their registration: event 10 has an unguarded edge at the
  top state 0 and a guarded one at state 1; event 11 has an edge at state 1 only; event 13
  has two edges at state 2, the guarded one first; events 14 and 15 lead from state 2 to
  itself, with and without an action; event 16 leads from state 3 into the composite state 0.
  No state has an edge for event 12.
\<close>

definition demo_registrations :: "(int, nat) Registration list" where
  "demo_registrations =
     [(0, 3, 10, None, None),
      (1, 4, 10, Some demo_action, Some demo_guard),
      (1, 3, 11, Some demo_action, None),
      (2, 3, 13, Some demo_action, Some demo_guard),
      (2, 4, 13, Some demo_action, None),
      (2, 2, 14, Some demo_action, None),
      (2, 2, 15, None, None),
      (3, 0, 16, None, None)]"

definition demo :: "(int, nat) HSM" where
  "demo = registerTransitions demo_registrations demo_topology"

definition demo_env :: "(int, nat) Env" where
  "demo_env = \<lparr>heap = [], world = 0, calls = []\<rparr>"

definition demo_event :: "HsmEventEnum \<Rightarrow> int list \<Rightarrow> int PendingEventInfo" where
  "demo_event e as = PendingEventInfo_default\<lparr>type := e, args := as\<rparr>"

text \<open>
  The machine bound to a dispatcher, and a queue as \<^verbatim>\<open>doTransition\<close> and two posts leave it:
  at the front the entry point event of a synchronous post that entered a composite state
  (it shares the synchronisation object 0 with the waiting caller), then a synchronous and
  an asynchronous event, not yet dispatched.
\<close>

definition demo_dispatcher :: Dispatcher where
  "demo_dispatcher = \<lparr>startOk = True, handlers = [], nextHandlerID = 1, emitted = 0\<rparr>"

definition demo_running :: "(int, nat) HSM" where
  "demo_running = snd (initialize (Some demo_dispatcher) demo)"

definition demo_sync_event :: "HsmEventEnum \<Rightarrow> int list \<Rightarrow> nat \<Rightarrow> int PendingEventInfo" where
  "demo_sync_event e as a =
     (demo_event e as)\<lparr>cvLock := Some a, syncProcessed := Some a, transitionStatus := Some a\<rparr>"

definition demo_drilldown :: "int PendingEventInfo" where
  "demo_drilldown =
     PendingEventInfo_default
       \<lparr>entryPointTransition := True, args := [], cvLock := Some 0, syncProcessed := Some 0,
        transitionStatus := Some 0\<rparr>"

definition demo_queued :: "(int, nat) HSM" where
  "demo_queued =
     demo_running\<lparr>mCurrentState := 0,
          mPendingEvents := [demo_drilldown, demo_sync_event 11 [] 1, demo_event 13 [0]]\<rparr>"

definition demo_queued_env :: "(int, nat) Env" where
  "demo_queued_env =
     demo_env\<lparr>heap := [\<lparr>status = PENDING, useCount = 2, notified = 0\<rparr>,
                      \<lparr>status = PENDING, useCount = 2, notified = 0\<rparr>]\<rparr>"

text \<open>
  A substate relation with a cycle, which \<^verbatim>\<open>registerSubstate\<close> accepts in the default
  configuration: 5 is a substate of 6 and 6 is a substate of 5. The machine has no edge.
\<close>

definition demo_cyclic :: "(int, nat) HSM" where
  "demo_cyclic =
     snd (registerSubstate 6 5 False
            (snd (registerSubstate 5 6 False (HierarchicalStateMachine 5))))"

definition demo_edge :: "HsmStateEnum \<Rightarrow> bool \<Rightarrow> bool \<Rightarrow> (int, nat) TransitionInfo" where
  "demo_edge to action guard =
     \<lparr>destinationState = to,
      onTransition = (if action then Some demo_action else None),
      checkCondition = (if guard then Some demo_guard else None)\<rparr>"

section \<open>Lemmas\<close>

subsection \<open>std::multimap\<close>

lemma sorted_emplace:
  "sorted (map fst m) \<Longrightarrow> sorted (map fst (emplace k v m))"
proof (induction m)
  case Nil
  then show ?case by (simp add: emplace_def)
next
  case (Cons e m)
  then show ?case
    by (auto simp: emplace_def dest: set_takeWhileD set_dropWhileD)
qed

lemma dropWhile_sorted_greater:
  "sorted (map fst m) \<Longrightarrow> e \<in> set (dropWhile (\<lambda>e. fst e \<le> k) m) \<Longrightarrow> k < fst e"
  by (induction m) (auto split: if_splits)

lemma equal_range_emplace:
  assumes "sorted (map fst m)"
  shows "equal_range k' (emplace k v m) =
           (if k' = k then equal_range k m @ [v] else equal_range k' m)"
proof -
  let ?t = "takeWhile (\<lambda>e. fst e \<le> k) m" and ?d = "dropWhile (\<lambda>e. fst e \<le> k) m"
  have split: "filter (\<lambda>e. fst e = k') m = filter (\<lambda>e. fst e = k') ?t @ filter (\<lambda>e. fst e = k') ?d"
    by (metis filter_append takeWhile_dropWhile_id)
  have none: "filter (\<lambda>e. fst e = k) ?d = []"
    using dropWhile_sorted_greater [OF assms] by (fastforce simp: filter_empty_conv)
  show ?thesis
  proof (cases "k' = k")
    case True
    with split none show ?thesis
      by (simp add: emplace_def equal_range_def)
  next
    case False
    with split show ?thesis
      by (simp add: emplace_def equal_range_def)
  qed
qed


subsection \<open>Registration\<close>

lemma registerTransition_sorted:
  "sorted (map fst (mTransitionsByEvent h)) \<Longrightarrow>
   sorted (map fst (mTransitionsByEvent (registerTransition from to e cb cond h)))"
  by (simp add: registerTransition_def sorted_emplace)

lemma registerTransition_edges:
  "sorted (map fst (mTransitionsByEvent h)) \<Longrightarrow>
   equal_range (s, e) (mTransitionsByEvent (registerTransition from to onEvent cb cond h)) =
     equal_range (s, e) (mTransitionsByEvent h) @
       (if from = s \<and> onEvent = e
        then [\<lparr>destinationState = to, onTransition = cb, checkCondition = cond\<rparr>] else [])"
  by (auto simp: registerTransition_def equal_range_emplace)

lemma registerTransitions_edges:
  "sorted (map fst (mTransitionsByEvent h)) \<Longrightarrow>
   equal_range (s, e) (mTransitionsByEvent (registerTransitions regs h)) =
     equal_range (s, e) (mTransitionsByEvent h) @ registeredFor s e regs"
proof (induction regs arbitrary: h)
  case Nil
  then show ?case by simp
next
  case (Cons r regs)
  obtain src dst onEvent cb cond where r: "r = (src, dst, onEvent, cb, cond)"
    by (cases r)
  show ?case
    using Cons.IH [OF registerTransition_sorted [OF Cons.prems]]
      registerTransition_edges [OF Cons.prems]
    by (simp add: r)
qed

lemma registerTransitions_mCurrentState:
  "mCurrentState (registerTransitions regs h) = mCurrentState h"
  by (induction regs arbitrary: h) (auto simp: registerTransition_def)

lemma registerTransitions_mSubstates:
  "mSubstates (registerTransitions regs h) = mSubstates h"
  by (induction regs h rule: registerTransitions.induct) (simp_all add: registerTransition_def)

lemma registerTransitions_mRegisteredStates:
  "mRegisteredStates (registerTransitions regs h) = mRegisteredStates h"
  by (induction regs h rule: registerTransitions.induct) (simp_all add: registerTransition_def)

lemma registerTransitions_mSubstateEntryPoint:
  "mSubstateEntryPoint (registerTransitions regs h) = mSubstateEntryPoint h"
  by (induction regs h rule: registerTransitions.induct) (simp_all add: registerTransition_def)

lemma registerTransitions_mPendingEvents:
  "mPendingEvents (registerTransitions regs h) = mPendingEvents h"
  by (induction regs h rule: registerTransitions.induct) (simp_all add: registerTransition_def)

lemma registerTransitions_mStopDispatching:
  "mStopDispatching (registerTransitions regs h) \<longleftrightarrow> mStopDispatching h"
  by (induction regs h rule: registerTransitions.induct) (simp_all add: registerTransition_def)

lemma registerTransitions_mDispatcher:
  "mDispatcher (registerTransitions regs h) = mDispatcher h"
  by (induction regs h rule: registerTransitions.induct) (simp_all add: registerTransition_def)

lemmas registerTransitions_fields =
  registerTransitions_mSubstates registerTransitions_mRegisteredStates
  registerTransitions_mSubstateEntryPoint registerTransitions_mPendingEvents
  registerTransitions_mStopDispatching registerTransitions_mDispatcher

lemma callbacksFor_registerState:
  "callbacksFor (registerState s a b c h) s' =
     (if s' = s \<and> suppliesCallback (a, b, c) then (a, b, c) else callbacksFor h s')"
  by (auto simp: callbacksFor_def registerState_def changedCallback_def enterCallback_def
        exitCallback_def)

lemma find_append_list:
  "find P (xs @ ys) = (case find P xs of None \<Rightarrow> find P ys | Some y \<Rightarrow> Some y)"
  by (induction xs) auto

lemma find_rev_Cons:
  "find P (rev xs @ [x]) = (case find P (rev xs) of None \<Rightarrow> (if P x then Some x else None)
                            | Some y \<Rightarrow> Some y)"
  by (simp add: find_append_list split: option.splits)


subsection \<open>The search for a target\<close>

lemma findTransitionTarget_edges:
  "equal_range (s, e) (mTransitionsByEvent h) \<noteq> [] \<Longrightarrow>
   findTransitionTarget h s e as x =
     Some (checkConditions h (equal_range (s, e) (mTransitionsByEvent h)) as x)"
  by (subst findTransitionTarget.simps) simp

lemma findTransitionTarget_parent:
  "equal_range (s, e) (mTransitionsByEvent h) = [] \<Longrightarrow> getParentState h s = Some p \<Longrightarrow>
   findTransitionTarget h s e as x = findTransitionTarget h p e as x"
  by (subst findTransitionTarget.simps) simp

lemma findTransitionTarget_root:
  "equal_range (s, e) (mTransitionsByEvent h) = [] \<Longrightarrow> getParentState h s = None \<Longrightarrow>
   findTransitionTarget h s e as x = Some (None, x)"
  by (subst findTransitionTarget.simps) simp

lemma findTransitionTarget_bubbles:
  "bubbles h e s path a \<Longrightarrow>
   findTransitionTarget h s e as x = findTransitionTarget h a e as x"
  by (induction path arbitrary: s) (simp_all add: findTransitionTarget_parent)

lemma findTransitionTarget_cycle_aux:
  assumes ret: "findTransitionTarget h s e as x = Some y"
      and cyc: "\<forall>s'\<in>C. equal_range (s', e) (mTransitionsByEvent h) = [] \<and>
                        (\<exists>p\<in>C. getParentState h s' = Some p)"
  shows "s \<notin> C"
proof -
  show "s \<notin> C"
  proof (rule findTransitionTarget.raw_induct
      [where P = "\<lambda>h' s' e' as' x' y'. h' = h \<and> e' = e \<longrightarrow> s' \<notin> C"
         and xa = "((((h, s), e), as), x)" and y = y, simplified])
    fix f :: "('a, 'b) HSM \<Rightarrow> int \<Rightarrow> int \<Rightarrow> 'a list \<Rightarrow> ('a, 'b) Env \<Rightarrow>
              (('a, 'b) TransitionInfo option \<times> ('a, 'b) Env) option"
    fix h' s' e' as' x' y'
    assume IH: "\<And>h'' s'' e'' as'' x'' y''. f h'' s'' e'' as'' x'' = Some y'' \<Longrightarrow>
                  h'' = h \<and> e'' = e \<longrightarrow> s'' \<notin> C"
    assume step: "(if equal_range (s', e') (mTransitionsByEvent h') = []
                   then case getParentState h' s' of None \<Rightarrow> Some (None, x')
                        | Some parentState \<Rightarrow> f h' parentState e' as' x'
                   else Some (checkConditions h'
                                (equal_range (s', e') (mTransitionsByEvent h')) as' x')) =
                  Some y'"
    show "h' = h \<and> e' = e \<longrightarrow> s' \<notin> C"
    proof (intro impI notI)
      assume eq: "h' = h \<and> e' = e" and "s' \<in> C"
      with cyc obtain p where p: "equal_range (s', e) (mTransitionsByEvent h) = []"
        "p \<in> C" "getParentState h s' = Some p"
        by blast
      with step eq have "f h p e as' x' = Some y'" by simp
      from IH [OF this] p(2) show False by simp
    qed
  next
    show "findTransitionTarget h s e as x = Some y" by (rule ret)
  qed
qed

lemma findTransitionTarget_cycle:
  assumes "\<forall>s'\<in>C. equal_range (s', e) (mTransitionsByEvent h) = [] \<and>
                    (\<exists>p\<in>C. getParentState h s' = Some p)"
      and "s \<in> C"
  shows "findTransitionTarget h s e as x = None"
proof (cases "findTransitionTarget h s e as x")
  case None
  then show ?thesis .
next
  case (Some y)
  from findTransitionTarget_cycle_aux [OF Some assms(1)] assms(2) show ?thesis by simp
qed

lemma checkConditions_member:
  "checkConditions h ts as x = (Some t, x') \<Longrightarrow> t \<in> set ts"
  by (induction ts arbitrary: x)
     (auto simp: Let_def split: option.splits prod.splits if_splits)

lemma checkConditions_heap:
  "checkConditions h ts as x = (r, x') \<Longrightarrow> heap x' = heap x"
  by (induction ts arbitrary: x)
     (auto simp: Let_def logCall_def split: option.splits prod.splits if_splits)

lemma checkConditions_accepted:
  assumes "accepts t as"
  shows "\<exists>x'. checkConditions h (t # post) as x = (Some t, x') \<and> heap x' = heap x \<and>
              calls x' = calls x @
                (case checkCondition t of None \<Rightarrow> []
                 | Some g \<Rightarrow> [(mCurrentState h, CheckCondition t as True)])"
proof (cases "checkCondition t")
  case None
  then show ?thesis by simp
next
  case (Some g)
  with assms have "fst (g as (world x))" by (simp add: accepts_def)
  then obtain w' where "g as (world x) = (True, w')"
    by (cases "g as (world x)") auto
  with Some show ?thesis by (simp add: logCall_def)
qed

lemma checkConditions_append_refused:
  "\<forall>r\<in>set pre. refuses r as \<Longrightarrow>
   \<exists>x1. heap x1 = heap x \<and> calls x1 = calls x @ conditionCalls h pre as \<and>
        checkConditions h (pre @ rest) as x = checkConditions h rest as x1"
proof (induction pre arbitrary: x)
  case Nil
  show ?case by (rule exI [of _ x]) (simp add: conditionCalls_def)
next
  case (Cons t pre)
  from Cons.prems obtain g where g: "checkCondition t = Some g" "\<And>w. \<not> fst (g as w)"
    by (auto simp: refuses_def)
  obtain w' where w': "g as (world x) = (False, w')"
    using g(2) [of "world x"] by (cases "g as (world x)") auto
  let ?x1 = "logCall h (CheckCondition t as False) (x\<lparr>world := w'\<rparr>)"
  from Cons.prems have "\<forall>r\<in>set pre. refuses r as" by simp
  from Cons.IH [OF this, of ?x1] obtain x2 where
    x2: "heap x2 = heap ?x1" "calls x2 = calls ?x1 @ conditionCalls h pre as"
        "checkConditions h (pre @ rest) as ?x1 = checkConditions h rest as x2"
    by blast
  have "checkConditions h ((t # pre) @ rest) as x = checkConditions h rest as x2"
    using g(1) w' x2(3) by simp
  moreover have "heap x2 = heap x" using x2(1) by (simp add: logCall_def)
  moreover have "calls x2 = calls x @ conditionCalls h (t # pre) as"
    using x2(2) by (simp add: logCall_def conditionCalls_def)
  ultimately show ?case by blast
qed

lemma refuses_not_accepts: "refuses r as \<Longrightarrow> accepts t as \<Longrightarrow> r \<noteq> t"
  by (auto simp: refuses_def accepts_def)

lemma resolveTransition_normal:
  "\<not> entryPointTransition event \<Longrightarrow>
   resolveTransition h x event =
     findTransitionTarget h (mCurrentState h) (type event) (args event) x"
  by (simp add: resolveTransition_def)


subsection \<open>The log of the callbacks\<close>

lemma onStateExiting_calls:
  "onStateExiting h s x = (r, x') \<Longrightarrow>
   heap x' = heap x \<and>
   calls x' = calls x @ fired (exitCallback h s) (mCurrentState h, OnExiting s r)"
  by (auto simp: onStateExiting_def fired_def exitCallback_def logCall_def
           split: option.splits prod.splits)

lemma onStateExiting_refused:
  "onStateExiting h s x = (False, x') \<Longrightarrow> exitCallback h s \<noteq> None"
  by (auto simp: onStateExiting_def exitCallback_def split: option.splits prod.splits)

lemma onStateEntering_calls:
  "onStateEntering h s as x = (r, x') \<Longrightarrow>
   heap x' = heap x \<and>
   calls x' = calls x @ fired (enterCallback h s) (mCurrentState h, OnEntering s as r)"
  by (auto simp: onStateEntering_def fired_def enterCallback_def logCall_def
           split: option.splits prod.splits)

lemma onStateEntering_refused:
  "onStateEntering h s as x = (False, x') \<Longrightarrow> enterCallback h s \<noteq> None"
  by (auto simp: onStateEntering_def enterCallback_def split: option.splits prod.splits)

lemma onStateChanged_calls:
  "heap (onStateChanged_call h s as x) = heap x \<and>
   calls (onStateChanged_call h s as x) =
     calls x @ fired (changedCallback h s) (mCurrentState h, OnStateChanged s as)"
  by (auto simp: onStateChanged_call_def fired_def changedCallback_def logCall_def
           split: option.splits)

lemma onTransition_calls:
  "heap (onTransition_call h t as x) = heap x \<and>
   calls (onTransition_call h t as x) =
     calls x @ fired (onTransition t) (mCurrentState h, OnTransition t as)"
  by (auto simp: onTransition_call_def fired_def logCall_def split: option.splits)

lemma callbacks_of_updated_state [simp]:
  "exitCallback (h\<lparr>mCurrentState := s'\<rparr>) s = exitCallback h s"
  "enterCallback (h\<lparr>mCurrentState := s'\<rparr>) s = enterCallback h s"
  "changedCallback (h\<lparr>mCurrentState := s'\<rparr>) s = changedCallback h s"
  by (simp_all add: exitCallback_def enterCallback_def changedCallback_def)

lemma onStateExiting_eval:
  "onStateExiting h s x =
     (case exitCallback h s of
        None \<Rightarrow> (True, x)
      | Some f \<Rightarrow> (fst (f (world x)),
                   logCall h (OnExiting s (fst (f (world x)))) (x\<lparr>world := snd (f (world x))\<rparr>)))"
  by (simp add: onStateExiting_def exitCallback_def split: option.splits prod.splits)

lemma onStateEntering_eval:
  "onStateEntering h s as x =
     (case enterCallback h s of
        None \<Rightarrow> (True, x)
      | Some f \<Rightarrow> (fst (f as (world x)),
                   logCall h (OnEntering s as (fst (f as (world x))))
                     (x\<lparr>world := snd (f as (world x))\<rparr>)))"
  by (simp add: onStateEntering_def enterCallback_def split: option.splits prod.splits)

lemma onStateChanged_eval:
  "onStateChanged_call h s as x =
     (case changedCallback h s of
        None \<Rightarrow> x
      | Some f \<Rightarrow> logCall h (OnStateChanged s as) (x\<lparr>world := f as (world x)\<rparr>))"
  by (simp add: onStateChanged_call_def changedCallback_def split: option.splits)


subsection \<open>The outcomes of doTransition\<close>

lemma doTransition_unresolved:
  "resolveTransition h x event = Some (None, x0) \<Longrightarrow>
   doTransition h x event = Some (DONE_FAILED, h, x0)"
  by (simp add: doTransition_def)

lemma doTransition_self:
  assumes "resolveTransition h x event = Some (Some t, x0)"
      and "destinationState t = mCurrentState h"
  shows "doTransition h x event =
           Some (if onTransition t = None then DONE_FAILED else DONE_OK, h,
                 onTransition_call h t (args event) x0)"
  using assms by (auto simp: doTransition_def onTransition_call_def)

lemma doTransition_exit_refused:
  assumes "resolveTransition h x event = Some (Some t, x0)"
      and "mCurrentState h \<noteq> destinationState t"
      and "onStateExiting h (mCurrentState h) x0 = (False, x1)"
  shows "doTransition h x event = Some (DONE_FAILED, h, x1)"
  using assms by (simp add: doTransition_def)

lemma doTransition_enter_refused:
  assumes "resolveTransition h x event = Some (Some t, x0)"
      and "mCurrentState h \<noteq> destinationState t"
      and "onStateExiting h (mCurrentState h) x0 = (True, x1)"
      and "onStateEntering h (destinationState t) (args event)
             (onTransition_call h t (args event) x1) = (False, x3)"
  shows "doTransition h x event =
           Some (DONE_FAILED, h,
                 onStateChanged_call h (mCurrentState h) []
                   (snd (onStateEntering h (mCurrentState h) [] x3)))"
  using assms by (simp add: doTransition_def Let_def split: prod.splits)

lemma doTransition_entered:
  assumes "resolveTransition h x event = Some (Some t, x0)"
      and "mCurrentState h \<noteq> destinationState t"
      and "onStateExiting h (mCurrentState h) x0 = (True, x1)"
      and "onStateEntering h (destinationState t) (args event)
             (onTransition_call h t (args event) x1) = (True, x3)"
  shows "\<exists>st h' x'. doTransition h x event = Some (st, h', x') \<and>
           mCurrentState h' = destinationState t \<and>
           calls x' = calls (onStateChanged_call (h\<lparr>mCurrentState := destinationState t\<rparr>)
                               (destinationState t) (args event) x3) \<and>
           st = (if getEntryPoint h (destinationState t) = None then DONE_OK else PENDING)"
  using assms
  by (auto simp: doTransition_def Let_def getEntryPoint_def split: prod.splits option.splits)

lemma doTransition_calls:
  assumes res: "resolveTransition h x event = Some (Some t, x0)"
      and nonself: "mCurrentState h \<noteq> destinationState t"
      and ex: "onStateExiting h (mCurrentState h) x0 = (exited, x1)"
      and en: "onStateEntering h (destinationState t) (args event)
                 (onTransition_call h t (args event) x1) = (entered, x3)"
  shows "\<exists>st h' x' r. doTransition h x event = Some (st, h', x') \<and>
           (\<not> exited \<longrightarrow> st = DONE_FAILED \<and> h' = h \<and>
              calls x' = calls x0 @ [(mCurrentState h, OnExiting (mCurrentState h) False)]) \<and>
           (exited \<and> \<not> entered \<longrightarrow> st = DONE_FAILED \<and> h' = h \<and>
              calls x' = calls x0 @
                fired (exitCallback h (mCurrentState h))
                  (mCurrentState h, OnExiting (mCurrentState h) True) @
                fired (onTransition t)
                  (mCurrentState h, OnTransition t (args event)) @
                [(mCurrentState h, OnEntering (destinationState t) (args event) False)] @
                fired (enterCallback h (mCurrentState h))
                  (mCurrentState h, OnEntering (mCurrentState h) [] r) @
                fired (changedCallback h (mCurrentState h))
                  (mCurrentState h, OnStateChanged (mCurrentState h) [])) \<and>
           (exited \<and> entered \<longrightarrow> st \<noteq> DONE_FAILED \<and>
              mCurrentState h' = destinationState t \<and>
              calls x' = calls x0 @
                fired (exitCallback h (mCurrentState h))
                  (mCurrentState h, OnExiting (mCurrentState h) True) @
                fired (onTransition t)
                  (mCurrentState h, OnTransition t (args event)) @
                fired (enterCallback h (destinationState t))
                  (mCurrentState h, OnEntering (destinationState t) (args event) True) @
                fired (changedCallback h (destinationState t))
                  (destinationState t, OnStateChanged (destinationState t) (args event)))"
proof (cases exited)
  case False
  with ex have ref: "onStateExiting h (mCurrentState h) x0 = (False, x1)" by simp
  have "calls x1 = calls x0 @ [(mCurrentState h, OnExiting (mCurrentState h) False)]"
    using onStateExiting_calls [OF ref] onStateExiting_refused [OF ref]
    by (auto simp: fired_def)
  with doTransition_exit_refused [OF res nonself ref] False show ?thesis
    by simp
next
  case True
  with ex have ok: "onStateExiting h (mCurrentState h) x0 = (True, x1)" by simp
  note c1 = onStateExiting_calls [OF ok]
  note c2 = onTransition_calls [of h t "args event" x1]
  show ?thesis
  proof (cases entered)
    case False
    with en have ref: "onStateEntering h (destinationState t) (args event)
                         (onTransition_call h t (args event) x1) = (False, x3)" by simp
    have c3: "calls x3 = calls (onTransition_call h t (args event) x1) @
                [(mCurrentState h, OnEntering (destinationState t) (args event) False)]"
      using onStateEntering_calls [OF ref] onStateEntering_refused [OF ref]
      by (auto simp: fired_def)
    obtain r x4 where rb: "onStateEntering h (mCurrentState h) [] x3 = (r, x4)"
      by (cases "onStateEntering h (mCurrentState h) [] x3")
    have "calls (onStateChanged_call h (mCurrentState h) [] x4) = calls x3 @
            fired (enterCallback h (mCurrentState h))
              (mCurrentState h, OnEntering (mCurrentState h) [] r) @
            fired (changedCallback h (mCurrentState h))
              (mCurrentState h, OnStateChanged (mCurrentState h) [])"
      using onStateEntering_calls [OF rb] onStateChanged_calls [of h "mCurrentState h" "[]" x4]
      by simp
    then show ?thesis
      using doTransition_enter_refused [OF res nonself ok ref] rb c1 c2 c3 True False
      by auto
  next
    case entered: True
    with en have acc: "onStateEntering h (destinationState t) (args event)
                         (onTransition_call h t (args event) x1) = (True, x3)" by simp
    note c3 = onStateEntering_calls [OF acc]
    note c4 = onStateChanged_calls [of "h\<lparr>mCurrentState := destinationState t\<rparr>"
                "destinationState t" "args event" x3]
    from doTransition_entered [OF res nonself ok acc] obtain st h' x' where
      "doTransition h x event = Some (st, h', x')"
      "mCurrentState h' = destinationState t"
      "calls x' = calls (onStateChanged_call (h\<lparr>mCurrentState := destinationState t\<rparr>)
                           (destinationState t) (args event) x3)"
      "st = (if getEntryPoint h (destinationState t) = None then DONE_OK else PENDING)"
      by blast
    with c1 c2 c3 c4 True entered show ?thesis
      by simp
  qed
qed

lemma doTransition_actions:
  assumes res: "resolveTransition h x event = Some (Some t, x0)"
  shows "\<exists>st h' x' new. doTransition h x event = Some (st, h', x') \<and>
           calls x' = calls x0 @ new \<and>
           (\<forall>d u a. (d, OnTransition u a) \<in> set new \<longrightarrow> u = t \<and> a = args event)"
proof (cases "destinationState t = mCurrentState h")
  case True
  from doTransition_self [OF res True] onTransition_calls [of h t "args event" x0]
  show ?thesis
    by (auto simp: fired_def split: option.splits)
next
  case False
  then have nonself: "mCurrentState h \<noteq> destinationState t" by simp
  obtain exited x1 where ex: "onStateExiting h (mCurrentState h) x0 = (exited, x1)"
    by (cases "onStateExiting h (mCurrentState h) x0")
  obtain entered x3 where en: "onStateEntering h (destinationState t) (args event)
                                 (onTransition_call h t (args event) x1) = (entered, x3)"
    by (cases "onStateEntering h (destinationState t) (args event)
                 (onTransition_call h t (args event) x1)")
  from doTransition_calls [OF res nonself ex en] show ?thesis
    by (cases exited; cases entered) (auto simp: fired_def split: option.splits)
qed


subsection \<open>The queue and the lifecycle\<close>

lemma clearPendingEvents_queue:
  "mPendingEvents (fst (clearPendingEvents h x)) = []"
  by (simp add: clearPendingEvents_def split: prod.splits)

lemma clearPendingEvents_others:
  "mCurrentState (fst (clearPendingEvents h x)) = mCurrentState h \<and>
   mDispatcher (fst (clearPendingEvents h x)) = mDispatcher h \<and>
   mStopDispatching (fst (clearPendingEvents h x)) = mStopDispatching h \<and>
   world (snd (clearPendingEvents h x)) = world x \<and>
   calls (snd (clearPendingEvents h x)) = calls x"
  by (simp add: clearPendingEvents_def split: prod.splits)

lemma release_facts:
  "mStopDispatching (release h) \<and> mDispatcher (release h) = None \<and>
   mCurrentState (release h) = mCurrentState h \<and>
   mPendingEvents (release h) = mPendingEvents h"
  by (simp add: release_def Let_def split: option.splits)


subsection \<open>The machine of the examples\<close>

lemma demo_topology_fields:
  "mCurrentState demo_topology = 2"
  "mTransitionsByEvent demo_topology = []"
  "mSubstates demo_topology = [(0, 1), (1, 2)]"
  "mSubstateEntryPoint demo_topology = [0 \<mapsto> 1, 1 \<mapsto> 2]"
  "mPendingEvents demo_topology = []"
  "\<not> mStopDispatching demo_topology"
  "mDispatcher demo_topology = None"
  "mRegisteredStates demo_topology =
     [2 \<mapsto> \<lparr>onStateChanged = Some demo_changed, onEntering = Some demo_enter,
              onExiting = Some demo_exit\<rparr>,
      3 \<mapsto> \<lparr>onStateChanged = Some demo_changed, onEntering = Some demo_enter,
              onExiting = Some demo_exit\<rparr>,
      4 \<mapsto> \<lparr>onStateChanged = None, onEntering = Some demo_refuse_enter, onExiting = None\<rparr>]"
  by (simp_all add: demo_topology_def registerState_def registerSubstate_def
        HierarchicalStateMachine_def emplace_def)

lemma demo_mCurrentState: "mCurrentState demo = 2"
  by (simp add: demo_def registerTransitions_mCurrentState demo_topology_fields)

lemma demo_edges:
  "equal_range (s, e) (mTransitionsByEvent demo) = registeredFor s e demo_registrations"
  using registerTransitions_edges [of demo_topology s e demo_registrations]
  by (simp add: demo_def demo_topology_fields equal_range_def)

lemma demo_fields:
  "mSubstates demo = [(0, 1), (1, 2)]"
  "mSubstateEntryPoint demo = [0 \<mapsto> 1, 1 \<mapsto> 2]"
  "mPendingEvents demo = []"
  "\<not> mStopDispatching demo"
  "mDispatcher demo = None"
  "mRegisteredStates demo =
     [2 \<mapsto> \<lparr>onStateChanged = Some demo_changed, onEntering = Some demo_enter,
              onExiting = Some demo_exit\<rparr>,
      3 \<mapsto> \<lparr>onStateChanged = Some demo_changed, onEntering = Some demo_enter,
              onExiting = Some demo_exit\<rparr>,
      4 \<mapsto> \<lparr>onStateChanged = None, onEntering = Some demo_refuse_enter, onExiting = None\<rparr>]"
  by (simp_all add: demo_def registerTransitions_fields demo_topology_fields)

lemma demo_getParentState:
  "getParentState demo 2 = Some 1" "getParentState demo 1 = Some 0" "getParentState demo 0 = None"
  by (simp_all add: getParentState_def demo_def registerTransitions_fields demo_topology_fields)

lemma demo_getEntryPoint:
  "getEntryPoint (demo\<lparr>mCurrentState := s'\<rparr>) s = [0 \<mapsto> 1, 1 \<mapsto> 2] s"
  "getEntryPoint demo s = [0 \<mapsto> 1, 1 \<mapsto> 2] s"
  by (simp_all add: getEntryPoint_def demo_def registerTransitions_fields demo_topology_fields)

lemma demo_callbacks:
  "exitCallback demo 2 = Some demo_exit" "enterCallback demo 2 = Some demo_enter"
  "changedCallback demo 2 = Some demo_changed"
  "exitCallback demo 3 = Some demo_exit" "enterCallback demo 3 = Some demo_enter"
  "changedCallback demo 3 = Some demo_changed"
  "exitCallback demo 4 = None" "enterCallback demo 4 = Some demo_refuse_enter"
  "changedCallback demo 4 = None"
  by (simp_all add: exitCallback_def enterCallback_def changedCallback_def demo_def
        registerTransitions_fields demo_topology_fields)

lemma demo_event_simps:
  "\<not> entryPointTransition (demo_event e as)" "type (demo_event e as) = e"
  "args (demo_event e as) = as"
  by (simp_all add: demo_event_def PendingEventInfo_default_def)

lemma demo_edges_at:
  "equal_range (0, 10) (mTransitionsByEvent demo) = [demo_edge 3 False False]"
  "equal_range (1, 10) (mTransitionsByEvent demo) = [demo_edge 4 True True]"
  "equal_range (1, 11) (mTransitionsByEvent demo) = [demo_edge 3 True False]"
  "equal_range (2, 13) (mTransitionsByEvent demo) = [demo_edge 3 True True, demo_edge 4 True False]"
  "equal_range (2, 14) (mTransitionsByEvent demo) = [demo_edge 2 True False]"
  "equal_range (2, 15) (mTransitionsByEvent demo) = [demo_edge 2 False False]"
  "equal_range (2, 10) (mTransitionsByEvent demo) = []"
  "equal_range (2, 11) (mTransitionsByEvent demo) = []"
  "equal_range (2, 12) (mTransitionsByEvent demo) = []"
  "equal_range (1, 12) (mTransitionsByEvent demo) = []"
  "equal_range (0, 12) (mTransitionsByEvent demo) = []"
  by (simp_all add: demo_edges demo_registrations_def demo_edge_def)

lemma demo_edge_simps:
  "destinationState (demo_edge to a g) = to"
  "onTransition (demo_edge to a g) = (if a then Some demo_action else None)"
  "checkCondition (demo_edge to a g) = (if g then Some demo_guard else None)"
  by (simp_all add: demo_edge_def)

lemma demo_guards:
  "refuses (demo_edge to a True) [0]" "accepts (demo_edge to a False) as"
  "accepts (demo_edge to a True) [1]"
  by (simp_all add: refuses_def accepts_def demo_edge_def demo_guard_def)

lemmas demo_eval =
  onStateExiting_eval onStateEntering_eval onStateChanged_eval onTransition_call_def
  demo_callbacks demo_exit_def demo_enter_def demo_refuse_enter_def demo_changed_def
  demo_action_def demo_guard_def logCall_def demo_env_def demo_mCurrentState demo_edge_simps
  demo_event_simps

lemma demo_resolve_11:
  "resolveTransition demo demo_env (demo_event 11 []) =
     Some (Some (demo_edge 3 True False), demo_env)"
  by (simp add: resolveTransition_normal demo_event_simps demo_mCurrentState demo_edges_at
        findTransitionTarget_parent [where p = 1] demo_getParentState
        findTransitionTarget_edges demo_edge_simps)


lemma demo_resolve_14:
  "resolveTransition demo demo_env (demo_event 14 []) =
     Some (Some (demo_edge 2 True False), demo_env)"
  by (simp add: resolveTransition_normal demo_edges_at findTransitionTarget_edges
        demo_mCurrentState demo_edge_simps demo_event_simps)

lemma demo_resolve_15:
  "resolveTransition demo demo_env (demo_event 15 []) =
     Some (Some (demo_edge 2 False False), demo_env)"
  by (simp add: resolveTransition_normal demo_edges_at findTransitionTarget_edges
        demo_mCurrentState demo_edge_simps demo_event_simps)

lemma demo_transition_11:
  "doTransition demo demo_env (demo_event 11 []) =
     Some (DONE_OK, demo\<lparr>mCurrentState := 3\<rparr>,
           \<lparr>heap = [], world = 1111,
            calls = [(2, OnExiting 2 True), (2, OnTransition (demo_edge 3 True False) []),
                     (2, OnEntering 3 [] True), (3, OnStateChanged 3 [])]\<rparr>)"
  unfolding doTransition_def demo_resolve_11
  by (simp add: demo_eval demo_getEntryPoint)

lemma demo_running_fields:
  "demo_running =
     demo\<lparr>mDispatcher := Some \<lparr>startOk = True, handlers = [1], nextHandlerID = 2, emitted = 0\<rparr>,
          mDispatcherHandlerId := 1\<rparr>"
  by (simp add: demo_running_def initialize_def demo_dispatcher_def registerEventHandler_def)

lemma demo_release:
  "mDispatcher (release demo_running) = None"
  "mStopDispatching (release demo_running)"
  "mPendingEvents (release demo_running) = []"
  "mCurrentState (release demo_running) = 2"
  using release_facts [of demo_running]
  by (simp_all add: demo_running_def initialize_def demo_dispatcher_def
        registerEventHandler_def demo_def registerTransitions_fields
        registerTransitions_mCurrentState demo_topology_fields split: prod.splits)

lemma demo_cyclic_no_return:
  "doTransition demo_cyclic demo_env (demo_event 12 []) = None"
proof -
  have f: "mCurrentState demo_cyclic = 5" "mTransitionsByEvent demo_cyclic = []"
    "mSubstates demo_cyclic = [(5, 6), (6, 5)]"
    by (simp_all add: demo_cyclic_def registerSubstate_def HierarchicalStateMachine_def
          emplace_def)
  have "findTransitionTarget demo_cyclic 5 12 [] demo_env = None"
    by (rule findTransitionTarget_cycle [where C = "{5, 6}"])
       (simp_all add: f equal_range_def getParentState_def)
  then show ?thesis
    by (simp add: doTransition_def resolveTransition_def demo_event_def
          PendingEventInfo_default_def f)
qed

text \<open>
  How an entry point event comes to stand in the queue: the machine is in state 3 and a
  synchronous post of event 16 is pending; one turn of \<^verbatim>\<open>dispatchEvents\<close> enters the
  composite state 0 and leaves the entry point event at the front of the queue, sharing
  the synchronisation object of the caller, which stays pending.
\<close>

lemma demo_sync_event_simps:
  "\<not> entryPointTransition (demo_sync_event e as a)" "type (demo_sync_event e as a) = e"
  "args (demo_sync_event e as a) = as" "cvLock (demo_sync_event e as a) = Some a"
  "syncProcessed (demo_sync_event e as a) = Some a"
  "transitionStatus (demo_sync_event e as a) = Some a"
  by (simp_all add: demo_sync_event_def demo_event_def PendingEventInfo_default_def)

lemma demo_drilldown_transition:
  "doTransition (demo_running\<lparr>mCurrentState := 3\<rparr>)
     (demo_env\<lparr>heap := [\<lparr>status = PENDING, useCount = 2, notified = 0\<rparr>]\<rparr>)
     (demo_sync_event 16 [] 0) =
   Some (PENDING,
         demo_running\<lparr>mCurrentState := 0, mPendingEvents := [demo_drilldown]\<rparr>,
         \<lparr>heap = [\<lparr>status = PENDING, useCount = 3, notified = 0\<rparr>], world = 1,
          calls = [(3, OnExiting 3 True)]\<rparr>)"
proof -
  let ?h1 = "demo_running\<lparr>mCurrentState := 3\<rparr>"
  have r: "resolveTransition ?h1 x (demo_sync_event 16 [] 0) =
             Some (Some \<lparr>destinationState = 0, onTransition = None, checkCondition = None\<rparr>, x)"
    for x
    by (simp add: resolveTransition_def demo_sync_event_simps demo_running_fields
          findTransitionTarget_edges demo_edges demo_registrations_def)
  show ?thesis
    unfolding doTransition_def r
    by (simp add: onStateExiting_eval onStateEntering_eval onStateChanged_eval
          onTransition_call_def exitCallback_def enterCallback_def changedCallback_def
          getEntryPoint_def demo_running_fields demo_fields demo_sync_event_simps
          demo_exit_def logCall_def demo_env_def demo_drilldown_def shared_ptr_copy_def
          shared_ptr_reset_def heapUpdate_def destroy_def unique_def
          PendingEventInfo_default_def Let_def)
qed


lemma demo_drilldown_arises:
  "dispatchEvents
     (demo_running\<lparr>mCurrentState := 3, mPendingEvents := [demo_sync_event 16 [] 0]\<rparr>)
     (demo_env\<lparr>heap := [\<lparr>status = PENDING, useCount = 2, notified = 0\<rparr>]\<rparr>) =
   Some (Inr (),
         demo_running
           \<lparr>mCurrentState := 0, mPendingEvents := [demo_drilldown],
            mDispatcher := Some \<lparr>startOk = True, handlers = [1], nextHandlerID = 2,
                                 emitted = 1\<rparr>\<rparr>,
         \<lparr>heap = [\<lparr>status = PENDING, useCount = 2, notified = 0\<rparr>], world = 1,
          calls = [(3, OnExiting 3 True)]\<rparr>)"
proof -
  define ev :: "int PendingEventInfo" where "ev = demo_sync_event 16 [] 0"
  define h0 where "h0 = demo_running\<lparr>mCurrentState := 3, mPendingEvents := [ev]\<rparr>"
  define x0 where "x0 = demo_env\<lparr>heap := [\<lparr>status = PENDING, useCount = 2, notified = 0\<rparr>]\<rparr>"
  define h2 where "h2 = demo_running\<lparr>mCurrentState := 0, mPendingEvents := [demo_drilldown]\<rparr>"
  define x2 :: "(int, nat) Env" where
    "x2 = \<lparr>heap = [\<lparr>status = PENDING, useCount = 3, notified = 0\<rparr>], world = 1,
           calls = [(3, OnExiting 3 True)]\<rparr>"
  have q: "h0\<lparr>mPendingEvents := []\<rparr> = demo_running\<lparr>mCurrentState := 3\<rparr>"
    by (simp add: h0_def demo_running_fields demo_fields)
  have hp: "x0\<lparr>heap := destroy ev (shared_ptr_copy (cvLock ev) (heap x0))\<rparr> = x0"
    by (simp add: ev_def x0_def demo_env_def demo_sync_event_simps shared_ptr_copy_def
          shared_ptr_reset_def heapUpdate_def destroy_def unique_def)
  have dt: "doTransition (h0\<lparr>mPendingEvents := []\<rparr>)
              (x0\<lparr>heap := destroy ev (shared_ptr_copy (cvLock ev) (heap x0))\<rparr>) ev =
            Some (PENDING, h2, x2)"
    unfolding q hp
    by (simp add: x0_def ev_def h2_def x2_def demo_drilldown_transition)
  have f: "\<not> mStopDispatching h0" "mPendingEvents h0 = [ev]"
    "\<not> mStopDispatching h2" "mPendingEvents h2 = [demo_drilldown]"
    "mDispatcher h2 = Some \<lparr>startOk = True, handlers = [1], nextHandlerID = 2, emitted = 0\<rparr>"
    by (simp_all add: h0_def h2_def demo_running_fields demo_fields)
  have "dispatchEvents h0 x0 =
          Some (Inr (),
                h2\<lparr>mDispatcher := Some (emitEvent \<lparr>startOk = True, handlers = [1],
                                                  nextHandlerID = 2, emitted = 0\<rparr>)\<rparr>,
                x2\<lparr>heap := destroy ev (unlock ev PENDING (heap x2))\<rparr>)"
    by (simp add: dispatchEvents_def f dt Let_def)
  then show ?thesis
    by (simp add: h0_def x0_def h2_def x2_def ev_def emitEvent_def demo_sync_event_simps
          shared_ptr_reset_def heapUpdate_def destroy_def unique_def unlock_def isSync_def)
qed

lemma demo_resolve_10:
  "resolveTransition demo demo_env (demo_event 10 [0]) =
     Some (None, \<lparr>heap = [], world = 0,
                  calls = [(2, CheckCondition (demo_edge 4 True True) [0] False)]\<rparr>)"
  by (simp add: resolveTransition_normal demo_edges_at demo_getParentState
        findTransitionTarget_parent [where p = 1] findTransitionTarget_edges demo_eval)

section \<open>The claims\<close>

subsection \<open>C1\<close>

text \<open>
  Claim C1, as amended. The claim says that the engine selects the edge of the nearest
  ancestor that has an edge for the event. The search stops at the first state of the chain
  of parents that has any edge for the event, whatever its guards say. What holds, with \<open>a\<close>
  that state (\<open>bubbles\<close>: every state below \<open>a\<close> on the chain from the current state has no
  edge for the event): the first edge of \<open>a\<close>, in registration order, that has no guard or
  whose guard accepts the arguments is selected, and when the exit and the entry are
  accepted \<^verbatim>\<open>doTransition\<close> moves the machine to the destination of that edge; when the
  guards of all edges of \<open>a\<close> refuse, the event fails; and when no state of the chain has an
  edge and the chain ends in a state without parent (the current state itself, when it has
  none), the event fails and nothing is called. (The chain is the one \<^verbatim>\<open>getParentState\<close>
  gives; on a cyclic substate relation the walk does not end, see
  \<open>findTransitionTarget_cycle\<close>.)
\<close>

theorem parent_bubbling:
  assumes normal: "\<not> entryPointTransition event"
      and walk: "bubbles h (type event) (mCurrentState h) path a"
  shows "(equal_range (a, type event) (mTransitionsByEvent h) = pre @ t # post \<and>
          (\<forall>r\<in>set pre. refuses r (args event)) \<and> accepts t (args event) \<longrightarrow>
            (\<exists>x0. resolveTransition h x event = Some (Some t, x0) \<and>
                  calls x0 = calls x @ conditionCalls h pre (args event) @
                    fired (checkCondition t)
                      (mCurrentState h, CheckCondition t (args event) True) \<and>
                  (\<forall>x1 x3.
                     mCurrentState h \<noteq> destinationState t \<and>
                     onStateExiting h (mCurrentState h) x0 = (True, x1) \<and>
                     onStateEntering h (destinationState t) (args event)
                       (onTransition_call h t (args event) x1) = (True, x3) \<longrightarrow>
                     (\<exists>st h' x'. doTransition h x event = Some (st, h', x') \<and>
                        st \<noteq> DONE_FAILED \<and> mCurrentState h' = destinationState t)))) \<and>
         (equal_range (a, type event) (mTransitionsByEvent h) \<noteq> [] \<and>
          (\<forall>r\<in>set (equal_range (a, type event) (mTransitionsByEvent h)).
             refuses r (args event)) \<longrightarrow>
            (\<exists>x'. doTransition h x event = Some (DONE_FAILED, h, x'))) \<and>
         (equal_range (a, type event) (mTransitionsByEvent h) = [] \<and>
          getParentState h a = None \<longrightarrow>
            doTransition h x event = Some (DONE_FAILED, h, x))"
proof -
  let ?es = "equal_range (a, type event) (mTransitionsByEvent h)"
  have r: "resolveTransition h x event = findTransitionTarget h a (type event) (args event) x"
    using findTransitionTarget_bubbles [OF walk] normal
    by (simp add: resolveTransition_normal)
  have sel: "\<exists>x0. resolveTransition h x event = Some (Some t, x0) \<and>
                  calls x0 = calls x @ conditionCalls h pre (args event) @
                    fired (checkCondition t)
                      (mCurrentState h, CheckCondition t (args event) True) \<and>
                  (\<forall>x1 x3.
                     mCurrentState h \<noteq> destinationState t \<and>
                     onStateExiting h (mCurrentState h) x0 = (True, x1) \<and>
                     onStateEntering h (destinationState t) (args event)
                       (onTransition_call h t (args event) x1) = (True, x3) \<longrightarrow>
                     (\<exists>st h' x'. doTransition h x event = Some (st, h', x') \<and>
                        st \<noteq> DONE_FAILED \<and> mCurrentState h' = destinationState t))"
    if es: "?es = pre @ t # post" and refused: "\<forall>r\<in>set pre. refuses r (args event)"
      and accepted: "accepts t (args event)"
  proof -
    from checkConditions_append_refused [OF refused, of x h "t # post"] obtain x1 where
      x1: "calls x1 = calls x @ conditionCalls h pre (args event)"
          "checkConditions h (pre @ t # post) (args event) x =
           checkConditions h (t # post) (args event) x1"
      by blast
    from checkConditions_accepted [OF accepted, of h post x1] obtain x0 where
      x0: "checkConditions h (t # post) (args event) x1 = (Some t, x0)"
          "calls x0 = calls x1 @
             (case checkCondition t of None \<Rightarrow> []
              | Some g \<Rightarrow> [(mCurrentState h, CheckCondition t (args event) True)])"
      by blast
    have res: "resolveTransition h x event = Some (Some t, x0)"
      using r es x1(2) x0(1) by (simp add: findTransitionTarget_edges)
    have c0: "calls x0 = calls x @ conditionCalls h pre (args event) @
                fired (checkCondition t) (mCurrentState h, CheckCondition t (args event) True)"
      using x0(2) x1(1) by (simp add: fired_def)
    have go: "\<exists>st h' x'. doTransition h x event = Some (st, h', x') \<and>
                st \<noteq> DONE_FAILED \<and> mCurrentState h' = destinationState t"
      if "mCurrentState h \<noteq> destinationState t"
        and "onStateExiting h (mCurrentState h) x0 = (True, x1')"
        and "onStateEntering h (destinationState t) (args event)
               (onTransition_call h t (args event) x1') = (True, x3')"
      for x1' x3'
      using doTransition_calls [OF res that] by auto
    from res c0 go show ?thesis by blast
  qed
  have ref: "\<exists>x'. doTransition h x event = Some (DONE_FAILED, h, x')"
    if ne: "?es \<noteq> []" and refused: "\<forall>r\<in>set ?es. refuses r (args event)"
  proof -
    from checkConditions_append_refused [OF refused, of x h "[]"] obtain x' where
      "checkConditions h ?es (args event) x = (None, x')"
      by auto
    with r ne have "resolveTransition h x event = Some (None, x')"
      by (simp add: findTransitionTarget_edges)
    then show ?thesis
      by (auto dest: doTransition_unresolved)
  qed
  have none: "doTransition h x event = Some (DONE_FAILED, h, x)"
    if "?es = []" and "getParentState h a = None"
  proof -
    from r that have "resolveTransition h x event = Some (None, x)"
      by (simp add: findTransitionTarget_root)
    then show ?thesis by (rule doTransition_unresolved)
  qed
  from sel ref none show ?thesis by blast
qed

text \<open>
  Claim C1 as stated fails in state 2 on event 10 with the argument 0: state 2 has no edge
  for the event, its parent 1 has one and the grandparent 0 has one without guard, yet no
  edge is selected: the guard of the edge of state 1 refuses, the search ends there and the
  event fails.
\<close>

theorem parent_bubbling_counterexample:
  "bubbles demo 10 (mCurrentState demo) [1] 1 \<and>
   equal_range (1, 10) (mTransitionsByEvent demo) = [demo_edge 4 True True] \<and>
   equal_range (0, 10) (mTransitionsByEvent demo) = [demo_edge 3 False False] \<and>
   resolveTransition demo demo_env (demo_event 10 [0]) =
     Some (None, \<lparr>heap = [], world = 0,
                  calls = [(2, CheckCondition (demo_edge 4 True True) [0] False)]\<rparr>) \<and>
   doTransition demo demo_env (demo_event 10 [0]) =
     Some (DONE_FAILED, demo,
           \<lparr>heap = [], world = 0,
            calls = [(2, CheckCondition (demo_edge 4 True True) [0] False)]\<rparr>)"
proof -
  have b: "bubbles demo 10 (mCurrentState demo) [1] 1"
    by (simp add: demo_mCurrentState demo_getParentState demo_edges_at)
  from b demo_edges_at(1,2) demo_resolve_10 doTransition_unresolved [OF demo_resolve_10]
  show ?thesis by (intro conjI)
qed

text \<open>
  In the machine of the examples, in state 2: event 11 has its edge at the parent 1, that
  edge is selected and the machine moves to its destination 3; event 10 with the argument
  0 finds only a refused edge at the parent 1 and fails; event 12 has no edge at 2, 1 or
  0, and fails.
\<close>

theorem parent_bubbling_witness:
  "\<not> entryPointTransition (demo_event 11 []) \<and>
   bubbles demo (type (demo_event 11 [])) (mCurrentState demo) [1] 1 \<and>
   equal_range (1, type (demo_event 11 [])) (mTransitionsByEvent demo) =
     [] @ demo_edge 3 True False # [] \<and>
   accepts (demo_edge 3 True False) (args (demo_event 11 [])) \<and>
   resolveTransition demo demo_env (demo_event 11 []) =
     Some (Some (demo_edge 3 True False), demo_env) \<and>
   mCurrentState demo \<noteq> destinationState (demo_edge 3 True False) \<and>
   (\<exists>st h' x'. doTransition demo demo_env (demo_event 11 []) = Some (st, h', x') \<and>
      st \<noteq> DONE_FAILED \<and> mCurrentState h' = 3) \<and>
   bubbles demo (type (demo_event 10 [0])) (mCurrentState demo) [1] 1 \<and>
   equal_range (1, type (demo_event 10 [0])) (mTransitionsByEvent demo) =
     [demo_edge 4 True True] \<and>
   refuses (demo_edge 4 True True) (args (demo_event 10 [0])) \<and>
   (\<exists>x'. doTransition demo demo_env (demo_event 10 [0]) = Some (DONE_FAILED, demo, x')) \<and>
   bubbles demo (type (demo_event 12 [])) (mCurrentState demo) [1, 0] 0 \<and>
   equal_range (0, type (demo_event 12 [])) (mTransitionsByEvent demo) = [] \<and>
   getParentState demo 0 = None \<and>
   doTransition demo demo_env (demo_event 12 []) = Some (DONE_FAILED, demo, demo_env)"
proof -
  have n: "\<not> entryPointTransition (demo_event e as)" for e as
    by (simp add: demo_event_simps)
  have b11: "bubbles demo (type (demo_event 11 [])) (mCurrentState demo) [1] 1"
    and b10: "bubbles demo (type (demo_event 10 [0])) (mCurrentState demo) [1] 1"
    and b12: "bubbles demo (type (demo_event 12 [])) (mCurrentState demo) [1, 0] 0"
    by (simp_all add: demo_event_simps demo_mCurrentState demo_getParentState demo_edges_at)
  have e11: "equal_range (1, type (demo_event 11 [])) (mTransitionsByEvent demo) =
               [] @ demo_edge 3 True False # []"
    and e10: "equal_range (1, type (demo_event 10 [0])) (mTransitionsByEvent demo) =
               [demo_edge 4 True True]"
    and e12: "equal_range (0, type (demo_event 12 [])) (mTransitionsByEvent demo) = []"
    by (simp_all add: demo_event_simps demo_edges_at)
  have a11: "accepts (demo_edge 3 True False) (args (demo_event 11 []))"
    and r10: "refuses (demo_edge 4 True True) (args (demo_event 10 [0]))"
    by (simp_all add: demo_event_simps demo_guards)
  have nonself: "mCurrentState demo \<noteq> destinationState (demo_edge 3 True False)"
    by (simp add: demo_eval)
  have ex: "onStateExiting demo (mCurrentState demo) demo_env =
              (True, \<lparr>heap = [], world = 1, calls = [(2, OnExiting 2 True)]\<rparr>)"
    by (simp add: demo_eval)
  have en: "onStateEntering demo (destinationState (demo_edge 3 True False))
              (args (demo_event 11 []))
              (onTransition_call demo (demo_edge 3 True False) (args (demo_event 11 []))
                 \<lparr>heap = [], world = 1, calls = [(2, OnExiting 2 True)]\<rparr>) =
            (True, \<lparr>heap = [], world = 1011,
                    calls = [(2, OnExiting 2 True), (2, OnTransition (demo_edge 3 True False) []),
                             (2, OnEntering 3 [] True)]\<rparr>)"
    by (simp add: demo_eval)
  have pre11: "\<forall>r\<in>set []. refuses r (args (demo_event 11 []))"
    by simp
  from parent_bubbling [OF n b11, of "[]" "demo_edge 3 True False" "[]" demo_env] e11 pre11 a11
  obtain x0 where
    res: "resolveTransition demo demo_env (demo_event 11 []) =
            Some (Some (demo_edge 3 True False), x0)"
    and go: "\<And>x1 x3.
        mCurrentState demo \<noteq> destinationState (demo_edge 3 True False) \<Longrightarrow>
        onStateExiting demo (mCurrentState demo) x0 = (True, x1) \<Longrightarrow>
        onStateEntering demo (destinationState (demo_edge 3 True False))
          (args (demo_event 11 []))
          (onTransition_call demo (demo_edge 3 True False) (args (demo_event 11 [])) x1) =
          (True, x3) \<Longrightarrow>
        \<exists>st h' x'. doTransition demo demo_env (demo_event 11 []) = Some (st, h', x') \<and>
          st \<noteq> DONE_FAILED \<and>
          mCurrentState h' = destinationState (demo_edge 3 True False)"
    by blast
  from res demo_resolve_11 have x0: "x0 = demo_env" by simp
  from go [OF nonself ex [folded x0] en]
  have d11: "\<exists>st h' x'. doTransition demo demo_env (demo_event 11 []) = Some (st, h', x') \<and>
               st \<noteq> DONE_FAILED \<and> mCurrentState h' = 3"
    by (simp add: demo_edge_simps)
  have all10: "\<forall>r\<in>set (equal_range (1, type (demo_event 10 [0])) (mTransitionsByEvent demo)).
                 refuses r (args (demo_event 10 [0]))"
    using e10 r10 by simp
  have ne10: "equal_range (1, type (demo_event 10 [0])) (mTransitionsByEvent demo) \<noteq> []"
    using e10 by simp
  from parent_bubbling [OF n b10, of _ _ _ demo_env] ne10 all10
  have d10: "\<exists>x'. doTransition demo demo_env (demo_event 10 [0]) =
                    Some (DONE_FAILED, demo, x')"
    by blast
  have p0: "getParentState demo 0 = None"
    by (simp add: demo_getParentState)
  from parent_bubbling [OF n b12, of _ _ _ demo_env] e12 p0
  have d12: "doTransition demo demo_env (demo_event 12 []) = Some (DONE_FAILED, demo, demo_env)"
    by blast
  from n b11 e11 a11 demo_resolve_11 nonself d11 b10 e10 r10 d10 b12 e12 p0 d12
  show ?thesis by (intro conjI)
qed

subsection \<open>C2\<close>




subsection \<open>C3\<close>




subsection \<open>C4\<close>

text \<open>
  Claim C4. \<^verbatim>\<open>clearPendingEvents\<close> removes the pending normal events and signals
  \<^verbatim>\<open>DONE_FAILED\<close> to those that have a synchronisation object; the claim says that entry
  point events stay in the queue. The code skips them in the loop that releases the locks
  and then calls \<^verbatim>\<open>mPendingEvents.clear()\<close>, which removes every entry. On the queue of
  \<open>demo_queued\<close> (its front is what \<open>demo_drilldown_arises\<close> shows a dispatcher turn to
  leave) the entry point event is dropped with the others, and its synchronisation
  object 0 is left pending and never notified.
\<close>

theorem clear_drops_entry_point_event:
  "clearPendingEvents demo_queued demo_queued_env =
     (demo_queued\<lparr>mPendingEvents := []\<rparr>,
      demo_queued_env\<lparr>heap := [\<lparr>status = PENDING, useCount = 1, notified = 0\<rparr>,
                                \<lparr>status = DONE_FAILED, useCount = 1, notified = 1\<rparr>]\<rparr>)"
  by (simp add: clearPendingEvents_def demo_queued_def demo_queued_env_def demo_env_def
        demo_drilldown_def demo_sync_event_def demo_event_def PendingEventInfo_default_def
        releaseLock_def isSync_def unlock_def shared_ptr_reset_def heapUpdate_def
        destroy_def unique_def)

text \<open>
  The queue held an entry point event; after the clear it is empty, and the object the
  entry point event shared with its caller is still pending.
\<close>

theorem clear_drops_entry_point_event_witness:
  "mPendingEvents (fst (clearPendingEvents demo_queued demo_queued_env)) = [] \<and>
   demo_drilldown \<in> set (mPendingEvents demo_queued) \<and>
   entryPointTransition demo_drilldown \<and>
   heap (snd (clearPendingEvents demo_queued demo_queued_env)) ! 0 =
     \<lparr>status = PENDING, useCount = 1, notified = 0\<rparr>"
  using clear_drops_entry_point_event
  by (simp add: demo_queued_def demo_drilldown_def)


subsection \<open>C5\<close>

text \<open>
  Claim C5, as amended. The claim says that the current state has advanced when
  \<^verbatim>\<open>onEntering\<close> of the destination runs. The code assigns \<^verbatim>\<open>mCurrentState\<close> after
  \<^verbatim>\<open>onEntering\<close> has returned true. What holds: while \<^verbatim>\<open>onExiting\<close>, the action and
  \<^verbatim>\<open>onEntering\<close> run, the current state is still the source state; \<^verbatim>\<open>onStateChanged\<close> runs in
  the state it is called for, which is the destination (then the new current state) or,
  after a refused entry, the source.
\<close>

theorem currentState_during_callbacks:
  assumes res: "resolveTransition h x event = Some (Some t, x0)"
      and dt: "doTransition h x event = Some (st, h', x')"
  shows "\<exists>new. calls x' = calls x0 @ new \<and>
           (\<forall>(d, c)\<in>set new.
              case c of
                OnStateChanged s a \<Rightarrow>
                  d = s \<and> (s \<noteq> mCurrentState h \<longrightarrow> s = destinationState t \<and> mCurrentState h' = s)
              | _ \<Rightarrow> d = mCurrentState h)"
proof (cases "destinationState t = mCurrentState h")
  case True
  from doTransition_self [OF res True] dt onTransition_calls [of h t "args event" x0]
  show ?thesis
    by (auto simp: fired_def split: option.splits)
next
  case False
  then have nonself: "mCurrentState h \<noteq> destinationState t" by simp
  obtain exited x1 where ex: "onStateExiting h (mCurrentState h) x0 = (exited, x1)"
    by (cases "onStateExiting h (mCurrentState h) x0")
  obtain entered x3 where en: "onStateEntering h (destinationState t) (args event)
                                 (onTransition_call h t (args event) x1) = (entered, x3)"
    by (cases "onStateEntering h (destinationState t) (args event)
                 (onTransition_call h t (args event) x1)")
  from doTransition_calls [OF res nonself ex en] dt show ?thesis
    by (cases exited; cases entered) (auto simp: fired_def split: option.splits)
qed

text \<open>
  Claim C5 as stated fails on the transition from state 2 to state 3: the third entry of
  the log is \<^verbatim>\<open>onEntering\<close> of the destination 3, called while \<^verbatim>\<open>mCurrentState\<close> is 2.
\<close>

theorem currentState_when_entering_counterexample:
  "doTransition demo demo_env (demo_event 11 []) =
     Some (DONE_OK, demo\<lparr>mCurrentState := 3\<rparr>,
           \<lparr>heap = [], world = 1111,
            calls = [(2, OnExiting 2 True), (2, OnTransition (demo_edge 3 True False) []),
                     (2, OnEntering 3 [] True), (3, OnStateChanged 3 [])]\<rparr>)"
  by (rule demo_transition_11)

text \<open>Event 11 in state 2, which leads to state 3.\<close>

theorem currentState_during_callbacks_witness:
  "resolveTransition demo demo_env (demo_event 11 []) =
     Some (Some (demo_edge 3 True False), demo_env) \<and>
   doTransition demo demo_env (demo_event 11 []) =
     Some (DONE_OK, demo\<lparr>mCurrentState := 3\<rparr>,
           \<lparr>heap = [], world = 1111,
            calls = [(2, OnExiting 2 True), (2, OnTransition (demo_edge 3 True False) []),
                     (2, OnEntering 3 [] True), (3, OnStateChanged 3 [])]\<rparr>) \<and>
   (\<exists>new. [(2, OnExiting 2 True), (2, OnTransition (demo_edge 3 True False) []),
            (2, OnEntering 3 [] True), (3, OnStateChanged 3 [])] = calls demo_env @ new \<and>
      (\<forall>(d, c)\<in>set new.
          case c of
            OnStateChanged s a \<Rightarrow>
              d = s \<and> (s \<noteq> mCurrentState demo \<longrightarrow>
                       s = destinationState (demo_edge 3 True False) \<and>
                       mCurrentState (demo\<lparr>mCurrentState := 3\<rparr>) = s)
          | _ \<Rightarrow> d = mCurrentState demo))"
  using currentState_during_callbacks [OF demo_resolve_11 demo_transition_11]
    demo_resolve_11 demo_transition_11
  by simp


subsection \<open>C6\<close>

text \<open>
  Claim C6, as amended. After \<^verbatim>\<open>release\<close> no event is dispatched: \<^verbatim>\<open>dispatchEvents\<close> does
  nothing. Posting is not without effect: \<^verbatim>\<open>transitionEx\<close> has no test of the stop flag or
  of \<^verbatim>\<open>mDispatcher\<close>; it appends the event to the queue (cleared before when \<^verbatim>\<open>clearQueue\<close> is
  set) and then calls \<^verbatim>\<open>emitEvent\<close> through the null \<^verbatim>\<open>mDispatcher\<close>, so that it returns no
  value, for a synchronous post as for an asynchronous one. The current state and the
  client are untouched.
\<close>

theorem post_after_release:
  "dispatchEvents (release h) x = Some (Inr (), release h, x) \<and>
   (\<exists>h2 x2 ev.
      transitionEx event clearQueue sync timeoutMs as during (release h) x =
        Some (Inl NullDispatcher, h2, x2) \<and>
      mCurrentState h2 = mCurrentState h \<and> world x2 = world x \<and> calls x2 = calls x \<and>
      mPendingEvents h2 = (if clearQueue then [] else mPendingEvents h) @ [ev] \<and>
      type ev = event \<and> args ev = as \<and> \<not> entryPointTransition ev \<and> isSync ev = sync)"
proof
  show "dispatchEvents (release h) x = Some (Inr (), release h, x)"
    using release_facts [of h] by (simp add: dispatchEvents_def)
next
  let ?e0 = "PendingEventInfo_default\<lparr>type := event, args := as\<rparr> :: 'a PendingEventInfo"
  obtain ev hp1 where i: "(if sync then initLock ?e0 (heap x) else (?e0, heap x)) = (ev, hp1)"
    by (cases "if sync then initLock ?e0 (heap x) else (?e0, heap x)")
  have ev: "type ev = event \<and> args ev = as \<and> \<not> entryPointTransition ev \<and> isSync ev = sync"
    using i by (auto simp: initLock_def PendingEventInfo_default_def isSync_def split: if_splits)
  obtain h1 x1 where c: "(if clearQueue then clearPendingEvents (release h) (x\<lparr>heap := hp1\<rparr>)
                          else (release h, x\<lparr>heap := hp1\<rparr>)) = (h1, x1)"
    by (cases "if clearQueue then clearPendingEvents (release h) (x\<lparr>heap := hp1\<rparr>)
               else (release h, x\<lparr>heap := hp1\<rparr>)")
  have h1: "mDispatcher h1 = None \<and> mCurrentState h1 = mCurrentState h \<and>
            mPendingEvents h1 = (if clearQueue then [] else mPendingEvents h) \<and>
            world x1 = world x \<and> calls x1 = calls x"
    using c release_facts [of h]
      clearPendingEvents_queue [of "release h" "x\<lparr>heap := hp1\<rparr>"]
      clearPendingEvents_others [of "release h" "x\<lparr>heap := hp1\<rparr>"]
    by (auto split: if_splits)
  have "transitionEx event clearQueue sync timeoutMs as during (release h) x =
          Some (Inl NullDispatcher, h1\<lparr>mPendingEvents := mPendingEvents h1 @ [ev]\<rparr>,
                x1\<lparr>heap := shared_ptr_copy (cvLock ev) (heap x1)\<rparr>)"
    using i c h1 by (simp add: transitionEx_def Let_def)
  with ev h1 show "\<exists>h2 x2 ev.
      transitionEx event clearQueue sync timeoutMs as during (release h) x =
        Some (Inl NullDispatcher, h2, x2) \<and>
      mCurrentState h2 = mCurrentState h \<and> world x2 = world x \<and> calls x2 = calls x \<and>
      mPendingEvents h2 = (if clearQueue then [] else mPendingEvents h) @ [ev] \<and>
      type ev = event \<and> args ev = as \<and> \<not> entryPointTransition ev \<and> isSync ev = sync"
    by auto
qed

text \<open>
  Claim C6 as stated fails on that post: the queue of the released machine, empty before,
  holds the event afterwards, a synchronisation object has been allocated, and the call
  ends in the null dispatcher instead of returning false.
\<close>

theorem post_after_release_counterexample:
  "transitionEx 11 False True 0 [] id (release demo_running) demo_env =
     Some (Inl NullDispatcher,
           (release demo_running)\<lparr>mPendingEvents := [demo_sync_event 11 [] 0]\<rparr>,
           demo_env\<lparr>heap := [\<lparr>status = PENDING, useCount = 2, notified = 0\<rparr>]\<rparr>)"
  by (simp add: transitionEx_def demo_release initLock_def PendingEventInfo_default_def
        demo_env_def shared_ptr_copy_def heapUpdate_def demo_sync_event_def demo_event_def)

text \<open>A synchronous post of event 11 to the released machine of the examples.\<close>

theorem post_after_release_witness:
  "dispatchEvents (release demo_running) demo_env =
     Some (Inr (), release demo_running, demo_env) \<and>
   (\<exists>h2 x2 ev.
      transitionEx 11 False True 0 [] id (release demo_running) demo_env =
        Some (Inl NullDispatcher, h2, x2) \<and>
      mCurrentState h2 = 2 \<and> world x2 = 0 \<and> calls x2 = [] \<and>
      mPendingEvents h2 = [ev] \<and> type ev = 11 \<and> args ev = [] \<and>
      \<not> entryPointTransition ev \<and> isSync ev)"
  using post_after_release [of demo_running demo_env 11 False True 0 "[]" id]
  by (simp add: demo_running_def initialize_def demo_dispatcher_def
        registerEventHandler_def demo_def registerTransitions_fields
        registerTransitions_mCurrentState demo_topology_fields demo_env_def split: prod.splits)


subsection \<open>C7\<close>

text \<open>
  Claim C7. The edges of a key are tried in the order of their registration: those a
  machine \<open>h0\<close> had already, then those of the calls \<open>regs\<close> of \<^verbatim>\<open>registerTransition\<close>, in the
  order of the calls. When the edges before \<open>t\<close> are refused by their guards and \<open>t\<close> has no
  guard or one that accepts, \<open>t\<close> is selected; only the conditions up to \<open>t\<close> have been
  called then, and every action \<^verbatim>\<open>doTransition\<close> calls afterwards is the action of \<open>t\<close>, not
  of a refused edge.
\<close>

theorem first_accepting_edge:
  assumes inv: "sorted (map fst (mTransitionsByEvent h0))"
      and h: "h = registerTransitions regs h0"
      and normal: "\<not> entryPointTransition event"
      and edges: "equal_range (mCurrentState h, type event) (mTransitionsByEvent h0) @
                  registeredFor (mCurrentState h) (type event) regs = pre @ t # post"
      and refused: "\<forall>r\<in>set pre. refuses r (args event)"
      and accepted: "accepts t (args event)"
  shows "\<exists>x0 st h' x' new.
           resolveTransition h x event = Some (Some t, x0) \<and>
           calls x0 = calls x @ conditionCalls h pre (args event) @
             fired (checkCondition t) (mCurrentState h, CheckCondition t (args event) True) \<and>
           doTransition h x event = Some (st, h', x') \<and>
           calls x' = calls x0 @ new \<and>
           (\<forall>d r a. (d, OnTransition r a) \<in> set new \<longrightarrow> r = t \<and> r \<notin> set pre)"
proof -
  have es: "equal_range (mCurrentState h, type event) (mTransitionsByEvent h) = pre @ t # post"
    using registerTransitions_edges [OF inv] edges h by simp
  from checkConditions_append_refused [OF refused, of x h "t # post"] obtain x1 where
    x1: "calls x1 = calls x @ conditionCalls h pre (args event)"
        "checkConditions h (pre @ t # post) (args event) x =
         checkConditions h (t # post) (args event) x1"
    by blast
  from checkConditions_accepted [OF accepted, of h post x1] obtain x0 where
    x0: "checkConditions h (t # post) (args event) x1 = (Some t, x0)"
        "calls x0 = calls x1 @
           (case checkCondition t of None \<Rightarrow> []
            | Some g \<Rightarrow> [(mCurrentState h, CheckCondition t (args event) True)])"
    by blast
  have res: "resolveTransition h x event = Some (Some t, x0)"
    using es x1(2) x0(1) normal
    by (simp add: resolveTransition_normal findTransitionTarget_edges)
  have c0: "calls x0 = calls x @ conditionCalls h pre (args event) @
              fired (checkCondition t) (mCurrentState h, CheckCondition t (args event) True)"
    using x0(2) x1(1) by (simp add: fired_def)
  from doTransition_actions [OF res] obtain st h' x' new where
    d: "doTransition h x event = Some (st, h', x')" "calls x' = calls x0 @ new"
       "\<forall>d u a. (d, OnTransition u a) \<in> set new \<longrightarrow> u = t \<and> a = args event"
    by blast
  have "t \<notin> set pre"
    using refused accepted refuses_not_accepts by blast
  with res c0 d show ?thesis
    by blast
qed

text \<open>
  Event 13 with the argument 0 in state 2: of the two edges registered for it, the first
  is refused by its guard and the second, registered later, is selected.
\<close>

theorem first_accepting_edge_witness:
  "sorted (map fst (mTransitionsByEvent demo_topology)) \<and>
   demo = registerTransitions demo_registrations demo_topology \<and>
   \<not> entryPointTransition (demo_event 13 [0]) \<and>
   equal_range (mCurrentState demo, type (demo_event 13 [0]))
     (mTransitionsByEvent demo_topology) @
   registeredFor (mCurrentState demo) (type (demo_event 13 [0])) demo_registrations =
     [demo_edge 3 True True] @ demo_edge 4 True False # [] \<and>
   refuses (demo_edge 3 True True) (args (demo_event 13 [0])) \<and>
   accepts (demo_edge 4 True False) (args (demo_event 13 [0])) \<and>
   (\<exists>x0 st h' x' new.
      resolveTransition demo demo_env (demo_event 13 [0]) =
        Some (Some (demo_edge 4 True False), x0) \<and>
      calls x0 = [(2, CheckCondition (demo_edge 3 True True) [0] False)] \<and>
      doTransition demo demo_env (demo_event 13 [0]) = Some (st, h', x') \<and>
      calls x' = calls x0 @ new \<and>
      (\<forall>d r a. (d, OnTransition r a) \<in> set new \<longrightarrow>
         r = demo_edge 4 True False \<and> r \<noteq> demo_edge 3 True True))"
proof -
  have inv: "sorted (map fst (mTransitionsByEvent demo_topology))"
    by (simp add: demo_topology_fields)
  have h: "demo = registerTransitions demo_registrations demo_topology"
    by (simp add: demo_def)
  have n: "\<not> entryPointTransition (demo_event 13 [0])"
    by (simp add: demo_event_simps)
  have es: "equal_range (mCurrentState demo, type (demo_event 13 [0]))
              (mTransitionsByEvent demo_topology) @
            registeredFor (mCurrentState demo) (type (demo_event 13 [0])) demo_registrations =
              [demo_edge 3 True True] @ demo_edge 4 True False # []"
    by (simp add: demo_mCurrentState demo_event_simps demo_topology_fields equal_range_def
          demo_registrations_def demo_edge_def)
  have r: "refuses (demo_edge 3 True True) (args (demo_event 13 [0]))"
    and a: "accepts (demo_edge 4 True False) (args (demo_event 13 [0]))"
    by (simp_all add: demo_event_simps demo_guards)
  have all: "\<forall>r\<in>set [demo_edge 3 True True]. refuses r (args (demo_event 13 [0]))"
    using r by simp
  from first_accepting_edge [OF inv h n es all a, of demo_env]
  have "\<exists>x0 st h' x' new.
      resolveTransition demo demo_env (demo_event 13 [0]) =
        Some (Some (demo_edge 4 True False), x0) \<and>
      calls x0 = [(2, CheckCondition (demo_edge 3 True True) [0] False)] \<and>
      doTransition demo demo_env (demo_event 13 [0]) = Some (st, h', x') \<and>
      calls x' = calls x0 @ new \<and>
      (\<forall>d r a. (d, OnTransition r a) \<in> set new \<longrightarrow>
         r = demo_edge 4 True False \<and> r \<noteq> demo_edge 3 True True)"
    by (simp add: conditionCalls_def fired_def demo_edge_simps demo_env_def
          demo_mCurrentState demo_event_simps)
  with inv h n es r a show ?thesis
    by (intro conjI)
qed


subsection \<open>C8\<close>

text \<open>
  Claim C8. When the target of the resolved transition is the current state, an edge with
  an action has its action called with the arguments of the event, and nothing else;
  \<^verbatim>\<open>doTransition\<close> returns \<^verbatim>\<open>DONE_OK\<close>. An edge without action makes it return
  \<^verbatim>\<open>DONE_FAILED\<close>, and nothing is called. The machine is unchanged in both cases.
\<close>

theorem self_transition:
  assumes res: "resolveTransition h x event = Some (Some t, x0)"
      and self: "destinationState t = mCurrentState h"
  shows "(\<forall>f. onTransition t = Some f \<longrightarrow>
            doTransition h x event =
              Some (DONE_OK, h,
                    x0\<lparr>world := f (args event) (world x0),
                       calls := calls x0 @
                         [(mCurrentState h, OnTransition t (args event))]\<rparr>)) \<and>
         (onTransition t = None \<longrightarrow> doTransition h x event = Some (DONE_FAILED, h, x0))"
  using assms by (auto simp: doTransition_def onTransition_call_def logCall_def)

text \<open>Events 14 and 15 in state 2: both lead to state 2, the first with an action.\<close>

theorem self_transition_witness:
  "resolveTransition demo demo_env (demo_event 14 []) =
     Some (Some (demo_edge 2 True False), demo_env) \<and>
   destinationState (demo_edge 2 True False) = mCurrentState demo \<and>
   onTransition (demo_edge 2 True False) = Some demo_action \<and>
   doTransition demo demo_env (demo_event 14 []) =
     Some (DONE_OK, demo,
           \<lparr>heap = [], world = 1000,
            calls = [(2, OnTransition (demo_edge 2 True False) [])]\<rparr>) \<and>
   resolveTransition demo demo_env (demo_event 15 []) =
     Some (Some (demo_edge 2 False False), demo_env) \<and>
   destinationState (demo_edge 2 False False) = mCurrentState demo \<and>
   onTransition (demo_edge 2 False False) = None \<and>
   doTransition demo demo_env (demo_event 15 []) = Some (DONE_FAILED, demo, demo_env)"
proof -
  have s14: "destinationState (demo_edge 2 True False) = mCurrentState demo"
    and a14: "onTransition (demo_edge 2 True False) = Some demo_action"
    and s15: "destinationState (demo_edge 2 False False) = mCurrentState demo"
    and a15: "onTransition (demo_edge 2 False False) = None"
    by (simp_all add: demo_edge_simps demo_mCurrentState)
  from self_transition [OF demo_resolve_14 s14] a14
  have "doTransition demo demo_env (demo_event 14 []) =
          Some (DONE_OK, demo,
                demo_env\<lparr>world := demo_action (args (demo_event 14 [])) (world demo_env),
                   calls := calls demo_env @
                     [(mCurrentState demo,
                       OnTransition (demo_edge 2 True False) (args (demo_event 14 [])))]\<rparr>)"
    by blast
  then have d14: "doTransition demo demo_env (demo_event 14 []) =
     Some (DONE_OK, demo,
           \<lparr>heap = [], world = 1000,
            calls = [(2, OnTransition (demo_edge 2 True False) [])]\<rparr>)"
    by (simp add: demo_env_def demo_action_def demo_mCurrentState demo_event_simps)
  from self_transition [OF demo_resolve_15 s15] a15
  have d15: "doTransition demo demo_env (demo_event 15 []) = Some (DONE_FAILED, demo, demo_env)"
    by blast
  from demo_resolve_14 s14 a14 d14 demo_resolve_15 s15 a15 d15 show ?thesis
    by (intro conjI)
qed


subsection \<open>C9\<close>

text \<open>
  Claim C9, as amended. \<^verbatim>\<open>registerState\<close> stores nothing when all three callbacks are
  null. So after a sequence of calls for one state, the callbacks stored are those of the
  most recent call that supplied at least one callback (those stored before, when no call
  did); and a call repeated with the same arguments changes nothing more.
\<close>

theorem last_supplying_registration_wins:
  "callbacksFor (registerStates s regs h) s =
     (case find suppliesCallback (rev regs) of
        None \<Rightarrow> callbacksFor h s
      | Some r \<Rightarrow> r) \<and>
   registerState s a b c (registerState s a b c h) = registerState s a b c h"
proof
  show "callbacksFor (registerStates s regs h) s =
     (case find suppliesCallback (rev regs) of None \<Rightarrow> callbacksFor h s | Some r \<Rightarrow> r)"
  proof (induction regs arbitrary: h)
    case Nil
    then show ?case by simp
  next
    case (Cons r regs)
    obtain a b c where r: "r = (a, b, c)" by (cases r)
    show ?case
      using Cons.IH [of "registerState s a b c h"]
      by (auto simp: r find_rev_Cons callbacksFor_registerState split: option.splits)
  qed
  show "registerState s a b c (registerState s a b c h) = registerState s a b c h"
    by (simp add: registerState_def)
qed

text \<open>
  Claim C9 as stated fails: the most recent call for state 7 supplied no callback, and the
  exit callback of the call before is still stored.
\<close>

theorem last_registration_counterexample:
  "callbacksFor
     (registerState 7 None None None
        (registerState 7 None None (Some demo_exit)
           (HierarchicalStateMachine 0 :: (int, nat) HSM))) 7 =
     (None, None, Some demo_exit)"
  by (simp add: registerState_def callbacksFor_def changedCallback_def
        enterCallback_def exitCallback_def HierarchicalStateMachine_def)

text \<open>
  Three registrations of state 7, the last without callbacks: the second one stays.
\<close>

theorem last_supplying_registration_wins_witness:
  "callbacksFor
     (registerStates 7
        [(Some demo_changed, None, None), (None, None, Some demo_exit), (None, None, None)]
        (HierarchicalStateMachine 0)) 7 =
     (None, None, Some demo_exit) \<and>
   registerState 7 None None (Some demo_exit)
     (registerState 7 None None (Some demo_exit) (HierarchicalStateMachine 0)) =
   (registerState 7 None None (Some demo_exit) (HierarchicalStateMachine 0) :: (int, nat) HSM)"
  using last_supplying_registration_wins
    [of 7 "[(Some demo_changed, None, None), (None, None, Some demo_exit), (None, None, None)]"
        "HierarchicalStateMachine 0 :: (int, nat) HSM" None None "Some demo_exit"]
  by simp


subsection \<open>C10\<close>

text \<open>
  Claim C10. When the state the search has reached (the current state, or an ancestor
  reached through states without edge for the event) has edges for the event and the guard
  of each refuses the arguments, the resolution finds nothing and the event fails. Only
  the conditions of these edges have been called: the search does not go on to the
  ancestors, whatever edges they have.
\<close>

theorem refused_guards_stop_search:
  assumes normal: "\<not> entryPointTransition event"
      and walk: "bubbles h (type event) (mCurrentState h) path a"
      and edges: "equal_range (a, type event) (mTransitionsByEvent h) \<noteq> []"
      and refused: "\<forall>t\<in>set (equal_range (a, type event) (mTransitionsByEvent h)).
                      refuses t (args event)"
  shows "\<exists>x'. resolveTransition h x event = Some (None, x') \<and>
              doTransition h x event = Some (DONE_FAILED, h, x') \<and>
              calls x' = calls x @
                conditionCalls h (equal_range (a, type event) (mTransitionsByEvent h))
                  (args event)"
proof -
  let ?es = "equal_range (a, type event) (mTransitionsByEvent h)"
  have r: "resolveTransition h x event = Some (checkConditions h ?es (args event) x)"
    using findTransitionTarget_bubbles [OF walk] normal edges
    by (simp add: resolveTransition_normal findTransitionTarget_edges)
  from checkConditions_append_refused [OF refused, of x h "[]"] obtain x' where
    "calls x' = calls x @ conditionCalls h ?es (args event)"
    "checkConditions h ?es (args event) x = (None, x')"
    by auto
  with r doTransition_unresolved [of h x event x'] show ?thesis
    by simp
qed

text \<open>
  Event 10 with the argument 0 in state 2: the parent 1 has one edge, refused by its
  guard; the grandparent 0 has an edge without guard for the same event, which is not
  reached.
\<close>

theorem refused_guards_stop_search_witness:
  "\<not> entryPointTransition (demo_event 10 [0]) \<and>
   bubbles demo (type (demo_event 10 [0])) (mCurrentState demo) [1] 1 \<and>
   equal_range (1, type (demo_event 10 [0])) (mTransitionsByEvent demo) =
     [demo_edge 4 True True] \<and>
   refuses (demo_edge 4 True True) (args (demo_event 10 [0])) \<and>
   getParentState demo 1 = Some 0 \<and>
   equal_range (0, type (demo_event 10 [0])) (mTransitionsByEvent demo) =
     [demo_edge 3 False False] \<and>
   accepts (demo_edge 3 False False) (args (demo_event 10 [0])) \<and>
   (\<exists>x'. resolveTransition demo demo_env (demo_event 10 [0]) = Some (None, x') \<and>
         doTransition demo demo_env (demo_event 10 [0]) = Some (DONE_FAILED, demo, x') \<and>
         calls x' = [(2, CheckCondition (demo_edge 4 True True) [0] False)])"
proof -
  have n: "\<not> entryPointTransition (demo_event 10 [0])"
    by (simp add: demo_event_simps)
  have b: "bubbles demo (type (demo_event 10 [0])) (mCurrentState demo) [1] 1"
    by (simp add: demo_event_simps demo_mCurrentState demo_getParentState demo_edges_at)
  have e: "equal_range (1, type (demo_event 10 [0])) (mTransitionsByEvent demo) =
             [demo_edge 4 True True]"
    and e0: "equal_range (0, type (demo_event 10 [0])) (mTransitionsByEvent demo) =
             [demo_edge 3 False False]"
    by (simp_all add: demo_event_simps demo_edges_at)
  have r: "refuses (demo_edge 4 True True) (args (demo_event 10 [0]))"
    and a: "accepts (demo_edge 3 False False) (args (demo_event 10 [0]))"
    by (simp_all add: demo_event_simps demo_guards)
  have ne: "equal_range (1, type (demo_event 10 [0])) (mTransitionsByEvent demo) \<noteq> []"
    using e by simp
  have all: "\<forall>t\<in>set (equal_range (1, type (demo_event 10 [0])) (mTransitionsByEvent demo)).
               refuses t (args (demo_event 10 [0]))"
    using e r by simp
  from refused_guards_stop_search [OF n b ne all, of demo_env] obtain x' where
    "resolveTransition demo demo_env (demo_event 10 [0]) = Some (None, x')"
    "doTransition demo demo_env (demo_event 10 [0]) = Some (DONE_FAILED, demo, x')"
    "calls x' = calls demo_env @
       conditionCalls demo
         (equal_range (1, type (demo_event 10 [0])) (mTransitionsByEvent demo))
         (args (demo_event 10 [0]))"
    by blast
  then have "\<exists>x'. resolveTransition demo demo_env (demo_event 10 [0]) = Some (None, x') \<and>
         doTransition demo demo_env (demo_event 10 [0]) = Some (DONE_FAILED, demo, x') \<and>
         calls x' = [(2, CheckCondition (demo_edge 4 True True) [0] False)]"
    by (simp add: demo_edges_at conditionCalls_def demo_env_def demo_mCurrentState
          demo_event_simps)
  with n b e r e0 a show ?thesis
    by (simp only: demo_getParentState simp_thms)
qed

end
